theory Spec2Isabelle
  imports Complex_Main "HOL-Library.Char_ord" "HOL-Library.List_Lexorder"
    "HOL-Library.Product_Lexorder"
begin

section \<open>Data model\<close>

text \<open>
  The participation map of \<^verbatim>\<open>app.py\<close> is a pandas script. A DataFrame is modelled
  as the list of its rows, a row as a record of its cells. A cell of the spreadsheet is
  either text or empty (pandas \<^verbatim>\<open>NaN\<close>): \<open>string option\<close>; a numeric cell, such as a
  sequence number, stands as its text, which is all the script's filling, counting and
  grouping look at. A Python \<^verbatim>\<open>str\<close> is
  modelled as a \<open>string\<close> whose characters are the code points below 256, which covers
  every literal of the script's country handling (the alias table needs U+00F4 and
  U+00FC); comparison of \<open>char\<close> and of \<open>string\<close> is then Python's code point order.
\<close>

type_synonym cell = "string option"

record sheet_row =
  SR_NO :: cell
  TEAM_NAME :: cell
  TEAM_MEMBER :: cell
  ORGANIZATION :: cell
  COUNTRY :: cell

text \<open>
  After \<^verbatim>\<open>df["Competition"] = sheet_name\<close> a row carries its competition. The type of
  the country column changes along the normaliser (text, list of tokens, text), so it is
  a parameter of the row type.
\<close>

record 'c reg_row =
  r_SR_NO :: cell
  r_TEAM_NAME :: cell
  r_TEAM_MEMBER :: cell
  r_ORGANIZATION :: cell
  r_COUNTRY :: 'c
  r_Competition :: string

definition with_country :: "'a reg_row \<Rightarrow> 'b \<Rightarrow> 'b reg_row" where
  "with_country r c =
     \<lparr>r_SR_NO = r_SR_NO r, r_TEAM_NAME = r_TEAM_NAME r, r_TEAM_MEMBER = r_TEAM_MEMBER r,
      r_ORGANIZATION = r_ORGANIZATION r, r_COUNTRY = c, r_Competition = r_Competition r\<rparr>"

datatype error = SheetNotFound | KeyError | IndexError | ValueError

definition competition_order :: "string list" where
  "competition_order = [''IROS 2024'', ''CDC 2024'', ''ICRA 2025'', ''CDC-TF 2025'']"

section \<open>Record loader\<close>

text \<open>
  \<^verbatim>\<open>Series.ffill\<close>: every empty cell takes the last non-empty value above it in the
  same column; cells above the first non-empty one stay empty.
\<close>

fun ffill_from :: "'a option \<Rightarrow> 'a option list \<Rightarrow> 'a option list" where
  "ffill_from prev [] = []"
| "ffill_from prev (None # xs) = prev # ffill_from prev xs"
| "ffill_from prev (Some v # xs) = Some v # ffill_from (Some v) xs"

definition ffill :: "'a option list \<Rightarrow> 'a option list" where
  "ffill xs = ffill_from None xs"

text \<open>
  Line 16 fills the four columns independently of each other and of the member column.
\<close>

definition ffill_columns :: "sheet_row list \<Rightarrow> sheet_row list" where
  "ffill_columns df =
     map (\<lambda>i. (df ! i)\<lparr>SR_NO := ffill (map SR_NO df) ! i,
                        TEAM_NAME := ffill (map TEAM_NAME df) ! i,
                        ORGANIZATION := ffill (map ORGANIZATION df) ! i,
                        COUNTRY := ffill (map COUNTRY df) ! i\<rparr>)
         [0..<length df]"

definition dropna_member :: "sheet_row list \<Rightarrow> sheet_row list" where
  "dropna_member df = filter (\<lambda>r. TEAM_MEMBER r \<noteq> None) df"

definition tag_competition :: "string \<Rightarrow> sheet_row \<Rightarrow> cell reg_row" where
  "tag_competition sheet_name r =
     \<lparr>r_SR_NO = SR_NO r, r_TEAM_NAME = TEAM_NAME r, r_TEAM_MEMBER = TEAM_MEMBER r,
      r_ORGANIZATION = ORGANIZATION r, r_COUNTRY = COUNTRY r, r_Competition = sheet_name\<rparr>"

text \<open>
  The workbook \<^verbatim>\<open>Registration.xlsx\<close> is a map from sheet names to sheets;
  \<^verbatim>\<open>read_excel\<close> raises on a missing sheet.
\<close>

type_synonym workbook = "string \<rightharpoonup> sheet_row list"

definition load_sheet :: "string \<Rightarrow> sheet_row list \<Rightarrow> cell reg_row list" where
  "load_sheet sheet_name df = map (tag_competition sheet_name) (dropna_member (ffill_columns df))"

definition load_competition :: "workbook \<Rightarrow> string \<Rightarrow> error + cell reg_row list" where
  "load_competition wb sheet_name =
     (case wb sheet_name of
        None \<Rightarrow> Inl SheetNotFound
      | Some df \<Rightarrow> Inr (load_sheet sheet_name df))"

fun concat_loaded :: "workbook \<Rightarrow> string list \<Rightarrow> error + cell reg_row list" where
  "concat_loaded wb [] = Inr []"
| "concat_loaded wb (c # cs) =
     (case load_competition wb c of
        Inl e \<Rightarrow> Inl e
      | Inr df \<Rightarrow> (case concat_loaded wb cs of Inl e \<Rightarrow> Inl e | Inr rest \<Rightarrow> Inr (df @ rest)))"

definition all_data :: "workbook \<Rightarrow> error + cell reg_row list" where
  "all_data wb = concat_loaded wb competition_order"

section \<open>Country normaliser\<close>

definition country_alias_map :: "(string \<times> string) list" where
  "country_alias_map =
     [(''USA'', ''United States''),
      (''U.S.'', ''United States''),
      (''United States of America (USA)'', ''United States''),
      (''United States (US)'', ''United States''),
      (''UAE'', ''United Arab Emirates''),
      (''United Arab Emirates (UAE)'', ''United Arab Emirates''),
      (''C'' @ [CHR 0xF4] @ ''te d'' @ [CHR 0x27] @ ''Ivoire'', ''Ivory Coast''),
      (''Republic of Korea'', ''South Korea''),
      (''Republic of T'' @ [CHR 0xFC] @ ''rkiye'', ''Turkey''),
      (''Turkiye'', ''Turkey''),
      (''T'' @ [CHR 0xFC] @ ''rkiye'', ''Turkey''),
      (''UK'', ''United Kingdom''),
      (''U.K.'', ''United Kingdom'')]"

text \<open>
  Python's whitespace (\<^verbatim>\<open>\s\<close> of a \<^verbatim>\<open>str\<close> pattern, and what \<^verbatim>\<open>str.strip\<close>
  removes) among the code points below 256.
\<close>

definition is_space :: "char \<Rightarrow> bool" where
  "is_space c =
     ((of_char c :: nat) \<in> {0x09, 0x0A, 0x0B, 0x0C, 0x0D, 0x1C, 0x1D, 0x1E, 0x1F, 0x20, 0x85, 0xA0})"

text \<open>
  The pattern \<^verbatim>\<open>\s*&\s*|\s*/\s*|\s+and\s+\<close> matched at the start of a string; the
  result is what follows the match. Each alternative first takes all the whitespace
  there is (giving some back never helps: the next pattern character is not
  whitespace), so the match at a position is unique.
\<close>

definition match_here :: "string \<Rightarrow> string option" where
  "match_here s =
     (let r = dropWhile is_space s in
      case r of
        [] \<Rightarrow> None
      | c # t \<Rightarrow>
          if c = CHR ''&'' then Some (dropWhile is_space t)
          else if c = CHR ''/'' then Some (dropWhile is_space t)
          else if r \<noteq> s \<and> take 3 r = ''and'' \<and> drop 3 r \<noteq> [] \<and> is_space (hd (drop 3 r))
               then Some (dropWhile is_space (drop 3 r))
          else None)"

lemma match_here_shorter: "match_here s = Some rest \<Longrightarrow> length rest < length s"
proof -
  assume m: "match_here s = Some rest"
  define r where "r = dropWhile is_space s"
  have rs: "length r \<le> length s"
    by (simp add: r_def length_dropWhile_le)
  from m have "r \<noteq> []"
    by (auto simp: match_here_def r_def [symmetric] Let_def)
  then obtain c t where rc: "r = c # t"
    by (cases r) auto
  have t: "length (dropWhile is_space t) \<le> length t"
    by (rule length_dropWhile_le)
  have d: "length (dropWhile is_space (drop 3 r)) \<le> length t"
    using length_dropWhile_le [of is_space "drop 3 r"] rc by simp
  from m rc have "rest = dropWhile is_space t \<or> rest = dropWhile is_space (drop 3 r)"
    by (auto simp: match_here_def r_def [symmetric] Let_def split: if_splits)
  with t d rc rs show ?thesis
    by auto
qed

text \<open>
  \<^verbatim>\<open>re.sub\<close> with replacement \<^verbatim>\<open>','\<close>: scan from the left, replace the match at the
  first position that has one and go on after it.
\<close>

function sep_replace :: "string \<Rightarrow> string" where
  "sep_replace [] = []"
| "sep_replace (c # cs) =
     (case match_here (c # cs) of
        Some rest \<Rightarrow> CHR '','' # sep_replace rest
      | None \<Rightarrow> c # sep_replace cs)"
  by pat_completeness auto
termination
  by (relation "measure length") (auto dest: match_here_shorter)

text \<open>\<^verbatim>\<open>str.split(',')\<close>: always at least one token.\<close>

fun split_comma :: "string \<Rightarrow> string list" where
  "split_comma [] = [[]]"
| "split_comma (c # cs) =
     (if c = CHR '','' then [] # split_comma cs
      else (case split_comma cs of
              [] \<Rightarrow> [[c]]
            | t # ts \<Rightarrow> (c # t) # ts))"

definition strip :: "string \<Rightarrow> string" where
  "strip s = rev (dropWhile is_space (rev (dropWhile is_space s)))"

definition replace_alias :: "string \<Rightarrow> string" where
  "replace_alias t = (case map_of country_alias_map t of Some v \<Rightarrow> v | None \<Rightarrow> t)"

text \<open>
  Lines 40 to 44, one column operation after the other on the whole frame. The
  \<^verbatim>\<open>.str\<close> methods and \<^verbatim>\<open>replace\<close> leave an empty cell empty, and \<^verbatim>\<open>explode\<close>
  keeps a row whose cell is empty as one row.
\<close>

definition str_replace_col :: "cell reg_row list \<Rightarrow> cell reg_row list" where
  "str_replace_col df = map (\<lambda>r. r\<lparr>r_COUNTRY := map_option sep_replace (r_COUNTRY r)\<rparr>) df"

definition str_split_col :: "cell reg_row list \<Rightarrow> string list option reg_row list" where
  "str_split_col df = map (\<lambda>r. with_country r (map_option split_comma (r_COUNTRY r))) df"

definition explode :: "string list option reg_row list \<Rightarrow> cell reg_row list" where
  "explode df =
     concat (map (\<lambda>r. case r_COUNTRY r of
                        None \<Rightarrow> [with_country r None]
                      | Some [] \<Rightarrow> [with_country r None]
                      | Some ts \<Rightarrow> map (\<lambda>t. with_country r (Some t)) ts) df)"

definition str_strip_col :: "cell reg_row list \<Rightarrow> cell reg_row list" where
  "str_strip_col df = map (\<lambda>r. r\<lparr>r_COUNTRY := map_option strip (r_COUNTRY r)\<rparr>) df"

definition replace_col :: "cell reg_row list \<Rightarrow> cell reg_row list" where
  "replace_col df = map (\<lambda>r. r\<lparr>r_COUNTRY := map_option replace_alias (r_COUNTRY r)\<rparr>) df"

definition df_split :: "cell reg_row list \<Rightarrow> cell reg_row list" where
  "df_split all = replace_col (str_strip_col (explode (str_split_col (str_replace_col all))))"

text \<open>
  What the claims call a country field with a delimiter: an ampersand, a slash or a comma
  anywhere, or the word \<^verbatim>\<open>and\<close> with whitespace on both sides. These two predicates
  follow the wording of the specification, not the script.
\<close>

fun has_and_word :: "string \<Rightarrow> bool" where
  "has_and_word [] = False"
| "has_and_word (a # s) =
     ((is_space a \<and> take 3 s = ''and'' \<and> drop 3 s \<noteq> [] \<and> is_space (hd (drop 3 s)))
      \<or> has_and_word s)"

definition has_delimiter :: "string \<Rightarrow> bool" where
  "has_delimiter c =
     (CHR ''&'' \<in> set c \<or> CHR ''/'' \<in> set c \<or> CHR '','' \<in> set c \<or> has_and_word c)"

section \<open>Aggregator\<close>

text \<open>
  A numeric cell of an aggregate table is an integer or empty (\<^verbatim>\<open>NaN\<close>). The column
  \<^verbatim>\<open>hover_text\<close> only exists in the callback's working copy; the f-string it holds is
  kept as the tuple of the values it interpolates.
\<close>

type_synonym num = "int option"

record hover =
  h_COUNTRY :: string
  h_Teams :: num
  h_Participants :: num
  h_Organizations :: num
  h_Competitions :: "num option"

record agg_row =
  a_Competition :: string
  a_COUNTRY :: string
  Teams :: num
  Participants :: num
  Organizations :: num
  Participation :: num
  hover_text :: "hover option"

definition dropna_col :: "'a option list \<Rightarrow> 'a list" where
  "dropna_col xs = [v. Some v \<leftarrow> xs]"

text \<open>\<^verbatim>\<open>nunique\<close> counts the distinct non-empty values, \<^verbatim>\<open>count\<close> the non-empty ones.\<close>

definition nunique :: "'a option list \<Rightarrow> int" where
  "nunique xs = int (length (remdups (dropna_col xs)))"

definition count_col :: "'a option list \<Rightarrow> int" where
  "count_col xs = int (length (dropna_col xs))"

text \<open>
  \<^verbatim>\<open>groupby\<close> drops the rows whose key is empty and lists the groups in the order of
  their keys. The per-competition table has no \<^verbatim>\<open>Participation\<close> column: after the
  \<^verbatim>\<open>concat\<close> of line 67 its rows are empty there.
\<close>

definition group_keys2 :: "cell reg_row list \<Rightarrow> (string \<times> string) list" where
  "group_keys2 df = sort (remdups (concat (map (\<lambda>r. case r_COUNTRY r of
                                                     None \<Rightarrow> []
                                                   | Some c \<Rightarrow> [(r_Competition r, c)]) df)))"

definition per_competition :: "cell reg_row list \<Rightarrow> agg_row list" where
  "per_competition df =
     map (\<lambda>(comp, c).
            let g = filter (\<lambda>r. r_Competition r = comp \<and> r_COUNTRY r = Some c) df in
            \<lparr>a_Competition = comp, a_COUNTRY = c,
             Teams = Some (nunique (map r_TEAM_NAME g)),
             Participants = Some (count_col (map r_TEAM_MEMBER g)),
             Organizations = Some (nunique (map r_ORGANIZATION g)),
             Participation = None,
             hover_text = None\<rparr>)
         (group_keys2 df)"

definition group_keys1 :: "cell reg_row list \<Rightarrow> string list" where
  "group_keys1 df = sort (remdups (dropna_col (map r_COUNTRY df)))"

definition all_combined :: "cell reg_row list \<Rightarrow> agg_row list" where
  "all_combined df =
     map (\<lambda>c.
            let g = filter (\<lambda>r. r_COUNTRY r = Some c) df in
            \<lparr>a_Competition = ''All Competitions'', a_COUNTRY = c,
             Teams = Some (nunique (map r_TEAM_NAME g)),
             Participants = Some (count_col (map r_TEAM_MEMBER g)),
             Organizations = Some (nunique (map r_ORGANIZATION g)),
             Participation = Some (nunique (map (\<lambda>r. Some (r_Competition r)) g)),
             hover_text = None\<rparr>)
         (group_keys1 df)"

definition map_data :: "cell reg_row list \<Rightarrow> agg_row list" where
  "map_data df = per_competition df @ all_combined df"

text \<open>The whole start-up computation, from the workbook to the aggregate table.\<close>

definition startup :: "workbook \<Rightarrow> error + agg_row list" where
  "startup wb = (case all_data wb of Inl e \<Rightarrow> Inl e | Inr d \<Rightarrow> Inr (map_data (df_split d)))"

section \<open>Presentation layer\<close>

definition metric_labels :: "(string \<times> string) list" where
  "metric_labels =
     [(''Teams'', ''Number of Teams''),
      (''Participants'', ''Number of Participants''),
      (''Organizations'', ''Number of Organizations''),
      (''Participation'', ''Number of Competitions'')]"

record metric_option =
  opt_label :: string
  opt_value :: string

record title =
  t_comp :: string
  t_metric_label :: string
  t_participants :: int
  t_teams :: int
  t_organizations :: int
  t_countries :: int

record figure =
  fig_locations :: "string list"
  fig_color :: "num list"
  fig_hovertemplate :: "hover option list"
  fig_title :: title
  fig_colorbar_title :: string
  fig_dtick :: int

text \<open>
  DataFrames are objects: the store is the list of the frames allocated so far, an
  address is an index into it, and assigning a column replaces the frame at the address
  of the object assigned to.
\<close>

type_synonym frame = "agg_row list"
type_synonym store = "frame list"

definition alloc :: "frame \<Rightarrow> store \<Rightarrow> nat \<times> store" where
  "alloc f s = (length s, s @ [f])"

definition numeric_cols :: "string list" where
  "numeric_cols = [''Teams'', ''Participants'', ''Organizations'', ''Participation'']"

definition get_col :: "string \<Rightarrow> (agg_row \<Rightarrow> num) option" where
  "get_col name =
     map_of [(''Teams'', Teams), (''Participants'', Participants),
             (''Organizations'', Organizations), (''Participation'', Participation)] name"

definition set_cell :: "string \<Rightarrow> num \<Rightarrow> agg_row \<Rightarrow> agg_row" where
  "set_cell name v r =
     (if name = ''Teams'' then r\<lparr>Teams := v\<rparr>
      else if name = ''Participants'' then r\<lparr>Participants := v\<rparr>
      else if name = ''Organizations'' then r\<lparr>Organizations := v\<rparr>
      else if name = ''Participation'' then r\<lparr>Participation := v\<rparr>
      else r)"

text \<open>
  \<^verbatim>\<open>df_subset[col] = df_subset[col].fillna(0).astype(int)\<close>, guarded by
  \<^verbatim>\<open>col in df_subset.columns\<close>.
\<close>

definition fillna_astype_int :: "string \<Rightarrow> frame \<Rightarrow> frame" where
  "fillna_astype_int col df =
     (case get_col col of
        None \<Rightarrow> df
      | Some g \<Rightarrow> map (\<lambda>r. set_cell col (Some (case g r of None \<Rightarrow> 0 | Some v \<Rightarrow> v)) r) df)"

definition valid_metrics_for :: "string \<Rightarrow> string list" where
  "valid_metrics_for selected_comp =
     (let all_metrics = map fst metric_labels in
      if selected_comp \<noteq> ''All Competitions''
      then filter (\<lambda>m. m \<noteq> ''Participation'') all_metrics
      else all_metrics)"

definition reset_metric :: "string list \<Rightarrow> string \<Rightarrow> error + string" where
  "reset_metric valid_metrics selected_metric =
     (if selected_metric \<notin> set valid_metrics
      then (case valid_metrics of [] \<Rightarrow> Inl IndexError | m # _ \<Rightarrow> Inr m)
      else Inr selected_metric)"

definition label_of :: "string \<Rightarrow> error + string" where
  "label_of m = (case map_of metric_labels m of None \<Rightarrow> Inl KeyError | Some l \<Rightarrow> Inr l)"

fun build_options :: "string list \<Rightarrow> error + metric_option list" where
  "build_options [] = Inr []"
| "build_options (m # ms) =
     (case label_of m of
        Inl e \<Rightarrow> Inl e
      | Inr l \<Rightarrow> (case build_options ms of
                    Inl e \<Rightarrow> Inl e
                  | Inr os \<Rightarrow> Inr (\<lparr>opt_label = l, opt_value = m\<rparr> # os)))"

definition hover_cols_for :: "string \<Rightarrow> string list" where
  "hover_cols_for selected_comp =
     [''Teams'', ''Participants'', ''Organizations'']
     @ (if selected_comp = ''All Competitions'' then [''Participation''] else [])"

definition hover_of :: "string list \<Rightarrow> agg_row \<Rightarrow> hover" where
  "hover_of hover_cols row =
     \<lparr>h_COUNTRY = a_COUNTRY row, h_Teams = Teams row, h_Participants = Participants row,
      h_Organizations = Organizations row,
      h_Competitions = (if ''Participation'' \<in> set hover_cols then Some (Participation row) else None)\<rparr>"

text \<open>\<^verbatim>\<open>Series.sum\<close> and \<^verbatim>\<open>Series.max\<close> skip empty cells; the maximum of no value is \<^verbatim>\<open>NaN\<close>.\<close>

definition series_sum :: "num list \<Rightarrow> int" where
  "series_sum col = sum_list (dropna_col col)"

definition series_max :: "num list \<Rightarrow> num" where
  "series_max col = (case dropna_col col of [] \<Rightarrow> None | v # vs \<Rightarrow> Some (fold max vs v))"

text \<open>
  Python's \<^verbatim>\<open>round\<close> of a quotient: to the nearest integer, a tie to the even one. The
  quotient \<^verbatim>\<open>max_val / 6\<close> is a float in the script; it is taken exactly here, which
  gives the same integer for every count below \<open>2 ^ 53\<close>.
\<close>

definition py_round :: "rat \<Rightarrow> int" where
  "py_round x =
     (let f = \<lfloor>x\<rfloor>; d = x - of_int f in
      if d < 1 / 2 then f
      else if 1 / 2 < d then f + 1
      else if even f then f else f + 1)"

text \<open>Line 172; \<^verbatim>\<open>round\<close> of \<^verbatim>\<open>NaN\<close> raises \<^verbatim>\<open>ValueError\<close>.\<close>

definition dtick_of :: "num \<Rightarrow> error + int" where
  "dtick_of max_val =
     (case max_val of
        None \<Rightarrow> Inl ValueError
      | Some m \<Rightarrow> Inr (if m \<le> 20 then 1 else max 1 (py_round (of_int m / 6))))"

text \<open>
  The callback. \<open>map_data_ref\<close> is the address the global \<^verbatim>\<open>map_data\<close> is bound to.
  Indexing with the boolean mask makes a new frame, \<^verbatim>\<open>.copy()\<close> another one, and every
  column assignment that follows goes to that copy.
\<close>

definition update_map ::
  "nat \<Rightarrow> string \<Rightarrow> string \<Rightarrow> store \<Rightarrow> (error + metric_option list \<times> string \<times> figure) \<times> store" where
  "update_map map_data_ref selected_comp selected_metric s0 =
     (let (masked, s1) = alloc (filter (\<lambda>r. a_Competition r = selected_comp) (s0 ! map_data_ref)) s0;
          (df_subset, s2) = alloc (s1 ! masked) s1;
          s3 = fold (\<lambda>col s. s[df_subset := fillna_astype_int col (s ! df_subset)]) numeric_cols s2;
          valid_metrics = valid_metrics_for selected_comp
      in case reset_metric valid_metrics selected_metric of
           Inl e \<Rightarrow> (Inl e, s3)
         | Inr metric \<Rightarrow>
        (case build_options valid_metrics of
           Inl e \<Rightarrow> (Inl e, s3)
         | Inr metric_options \<Rightarrow>
        (let total_participants = series_sum (map Participants (s3 ! df_subset));
             total_teams = series_sum (map Teams (s3 ! df_subset));
             total_organizations = series_sum (map Organizations (s3 ! df_subset));
             total_countries = nunique (map (\<lambda>r. Some (a_COUNTRY r)) (s3 ! df_subset));
             hover_cols = hover_cols_for selected_comp;
             s4 = s3[df_subset := map (\<lambda>row. row\<lparr>hover_text := Some (hover_of hover_cols row)\<rparr>)
                                      (s3 ! df_subset)]
         in case get_col metric of
              None \<Rightarrow> (Inl KeyError, s4)
            | Some column \<Rightarrow>
           (case dtick_of (series_max (map column (s4 ! df_subset))) of
              Inl e \<Rightarrow> (Inl e, s4)
            | Inr dtick \<Rightarrow>
           (case label_of metric of
              Inl e \<Rightarrow> (Inl e, s4)
            | Inr label \<Rightarrow>
              (Inr (metric_options, metric,
                    \<lparr>fig_locations = map a_COUNTRY (s4 ! df_subset),
                     fig_color = map column (s4 ! df_subset),
                     fig_hovertemplate = map hover_text (s4 ! df_subset),
                     fig_title = \<lparr>t_comp = selected_comp, t_metric_label = label,
                                  t_participants = total_participants, t_teams = total_teams,
                                  t_organizations = total_organizations,
                                  t_countries = total_countries\<rparr>,
                     fig_colorbar_title = label,
                     fig_dtick = dtick\<rparr>), s4))))))"

text \<open>
  The framework calls the callback once for every interaction, each time with the two
  current selections; the store is threaded through the calls.
\<close>

definition interactions :: "nat \<Rightarrow> (string \<times> string) list \<Rightarrow> store \<Rightarrow> store" where
  "interactions map_data_ref evs s =
     fold (\<lambda>(selected_comp, selected_metric) s'.
             snd (update_map map_data_ref selected_comp selected_metric s')) evs s"

section \<open>Properties of the presentation layer\<close>

lemma valid_metrics_for_eq:
  "valid_metrics_for sc =
     (if sc \<noteq> ''All Competitions'' then [''Teams'', ''Participants'', ''Organizations'']
      else [''Teams'', ''Participants'', ''Organizations'', ''Participation''])"
  by (simp add: valid_metrics_for_def metric_labels_def)

lemma reset_metric_valid:
  "reset_metric (valid_metrics_for sc) metric =
     Inr (if metric \<in> set (valid_metrics_for sc) then metric else ''Teams'')"
  by (simp add: reset_metric_def valid_metrics_for_eq)

lemma build_options_valid:
  "build_options (valid_metrics_for sc) =
     Inr (map (\<lambda>m. \<lparr>opt_label = ''Number of '' @ (if m = ''Participation'' then ''Competitions'' else m),
                     opt_value = m\<rparr>) (valid_metrics_for sc))"
  by (simp add: valid_metrics_for_eq label_of_def metric_labels_def)

lemma reset_in_valid:
  "(if metric \<in> set (valid_metrics_for sc) then metric else ''Teams'') \<in> set (valid_metrics_for sc)"
  by (simp add: valid_metrics_for_eq)

lemma get_col_valid:
  "m \<in> set (valid_metrics_for sc) \<Longrightarrow> \<exists>column. get_col m = Some column"
  by (auto simp: valid_metrics_for_eq get_col_def split: if_splits)

lemma label_of_valid:
  "m \<in> set (valid_metrics_for sc) \<Longrightarrow> \<exists>l. label_of m = Inr l"
  by (auto simp: valid_metrics_for_eq label_of_def metric_labels_def split: if_splits)

lemma store_fold:
  "fold (\<lambda>col s. s[Suc (length s0) := F col (s ! Suc (length s0))]) cols (s0 @ [f, g])
     = s0 @ [f, fold F cols g]"
  by (induction cols arbitrary: g) (simp_all add: nth_append list_update_append)

lemma update_map_unfold:
  "update_map md sc metric s0 =
     (let f = filter (\<lambda>r. a_Competition r = sc) (s0 ! md);
          g = fold fillna_astype_int numeric_cols f;
          h = map (\<lambda>row. row\<lparr>hover_text := Some (hover_of (hover_cols_for sc) row)\<rparr>) g
      in case reset_metric (valid_metrics_for sc) metric of
           Inl e \<Rightarrow> (Inl e, s0 @ [f, g])
         | Inr m \<Rightarrow>
        (case build_options (valid_metrics_for sc) of
           Inl e \<Rightarrow> (Inl e, s0 @ [f, g])
         | Inr metric_options \<Rightarrow>
        (case get_col m of
              None \<Rightarrow> (Inl KeyError, s0 @ [f, h])
            | Some column \<Rightarrow>
           (case dtick_of (series_max (map column h)) of
              Inl e \<Rightarrow> (Inl e, s0 @ [f, h])
            | Inr dtick \<Rightarrow>
           (case label_of m of
              Inl e \<Rightarrow> (Inl e, s0 @ [f, h])
            | Inr label \<Rightarrow>
              (Inr (metric_options, m,
                    \<lparr>fig_locations = map a_COUNTRY h,
                     fig_color = map column h,
                     fig_hovertemplate = map hover_text h,
                     fig_title = \<lparr>t_comp = sc, t_metric_label = label,
                                  t_participants = series_sum (map Participants g),
                                  t_teams = series_sum (map Teams g),
                                  t_organizations = series_sum (map Organizations g),
                                  t_countries = nunique (map (\<lambda>r. Some (a_COUNTRY r)) g)\<rparr>,
                     fig_colorbar_title = label,
                     fig_dtick = dtick\<rparr>), s0 @ [f, h]))))))"
  unfolding update_map_def alloc_def Let_def
  by (simp add: store_fold nth_append list_update_append split: sum.splits option.splits)





lemma series_max_Some:
  "xs \<noteq> [] \<Longrightarrow> series_max (map (\<lambda>r. Some (v r)) xs) = Some (Max (v ` set xs))"
proof -
  assume "xs \<noteq> []"
  then obtain y ys where xs: "xs = y # ys" by (cases xs) auto
  have d: "dropna_col (map (\<lambda>r. Some (v r)) zs) = map v zs" for zs
    by (induction zs) (simp_all add: dropna_col_def)
  have "fold max (map v ys) (v y) = Max (set (v y # map v ys))"
    by (simp only: Max.set_eq_fold)
  then show ?thesis
    unfolding series_max_def d xs by simp
qed

lemma series_max_Nil: "series_max [] = None"
  by (simp add: series_max_def dropna_col_def)

lemma filled_col:
  "get_col m = Some column \<Longrightarrow>
     map column (fold fillna_astype_int numeric_cols f) =
     map (\<lambda>r. Some (case column r of None \<Rightarrow> 0 | Some v \<Rightarrow> v)) f"
  by (auto simp: get_col_def numeric_cols_def fillna_astype_int_def set_cell_def split: if_splits)

lemma hover_col:
  "get_col m = Some column \<Longrightarrow>
     map column (map (\<lambda>row. row\<lparr>hover_text := x row\<rparr>) g) = map column g"
  by (auto simp: get_col_def split: if_splits)

lemma update_map_store:
  "\<exists>h. snd (update_map md sc metric s) = s @ [filter (\<lambda>r. a_Competition r = sc) (s ! md), h]
       \<and> length h = length (filter (\<lambda>r. a_Competition r = sc) (s ! md))
       \<and> map a_COUNTRY h = map a_COUNTRY (filter (\<lambda>r. a_Competition r = sc) (s ! md))"
proof -
  have c: "map a_COUNTRY (fold fillna_astype_int numeric_cols f) = map a_COUNTRY f" for f
    by (simp add: numeric_cols_def fillna_astype_int_def get_col_def set_cell_def comp_def)
  have l: "length (fold fillna_astype_int numeric_cols f) = length f" for f
    using arg_cong [OF c, of length f] by simp
  show ?thesis
    unfolding update_map_unfold Let_def
    by (simp add: c l comp_def split: sum.splits option.splits)
qed

lemma update_map_returns:
  assumes "filter (\<lambda>r. a_Competition r = sc) (s ! md) \<noteq> []"
  shows "\<exists>opts fig s' column.
           update_map md sc metric s =
             (Inr (opts, (if metric \<in> set (valid_metrics_for sc) then metric else ''Teams''), fig), s')
         \<and> map opt_value opts = valid_metrics_for sc
         \<and> get_col (if metric \<in> set (valid_metrics_for sc) then metric else ''Teams'') = Some column
         \<and> dtick_of (Some (Max ((\<lambda>r. case column r of None \<Rightarrow> 0 | Some v \<Rightarrow> v) `
                                  set (filter (\<lambda>r. a_Competition r = sc) (s ! md))))) = Inr (fig_dtick fig)"
proof -
  define m where "m = (if metric \<in> set (valid_metrics_for sc) then metric else ''Teams'')"
  define f where "f = filter (\<lambda>r. a_Competition r = sc) (s ! md)"
  have mv: "m \<in> set (valid_metrics_for sc)"
    unfolding m_def by (rule reset_in_valid)
  from get_col_valid [OF mv] obtain column where col: "get_col m = Some column" ..
  from label_of_valid [OF mv] obtain l where lab: "label_of m = Inr l" ..
  have f: "f \<noteq> []"
    using assms by (simp add: f_def)
  have mx: "series_max (map column (map (\<lambda>row. row\<lparr>hover_text := Some (hover_of (hover_cols_for sc) row)\<rparr>)
                (fold fillna_astype_int numeric_cols f)))
            = Some (Max ((\<lambda>r. case column r of None \<Rightarrow> 0 | Some v \<Rightarrow> v) ` set f))"
    by (simp only: hover_col [OF col] filled_col [OF col] series_max_Some [OF f])
  obtain d where d: "dtick_of (Some (Max ((\<lambda>r. case column r of None \<Rightarrow> 0 | Some v \<Rightarrow> v) ` set f))) = Inr d"
    by (simp add: dtick_of_def)
  show ?thesis
    unfolding update_map_unfold Let_def reset_metric_valid build_options_valid
      m_def [symmetric] f_def [symmetric]
    by (simp only: sum.case option.case col mx d lab prod.inject sum.inject figure.simps simp_thms ex_simps)
       (simp add: d comp_def)
qed

lemma update_map_raises:
  assumes "filter (\<lambda>r. a_Competition r = sc) (s ! md) = []"
  shows "fst (update_map md sc metric s) = Inl ValueError"
proof -
  define m where "m = (if metric \<in> set (valid_metrics_for sc) then metric else ''Teams'')"
  have mv: "m \<in> set (valid_metrics_for sc)"
    unfolding m_def by (rule reset_in_valid)
  from get_col_valid [OF mv] obtain column where col: "get_col m = Some column" ..
  have g: "fold fillna_astype_int numeric_cols [] = []"
    by (simp add: numeric_cols_def fillna_astype_int_def get_col_def)
  show ?thesis
    unfolding update_map_unfold Let_def reset_metric_valid build_options_valid
      m_def [symmetric] assms
    by (simp add: col g series_max_Nil dtick_of_def)
qed

lemma update_map_Inr_nonempty:
  "update_map md sc metric s = (Inr x, s') \<Longrightarrow> filter (\<lambda>r. a_Competition r = sc) (s ! md) \<noteq> []"
proof
  assume u: "update_map md sc metric s = (Inr x, s')"
  assume "filter (\<lambda>r. a_Competition r = sc) (s ! md) = []"
  from update_map_raises [OF this, of metric] have "fst (update_map md sc metric s) = Inl ValueError" .
  with u show False by simp
qed

text \<open>
  Claim C2. The valid metrics leave out \<^verbatim>\<open>Participation\<close> exactly when the selected
  competition is not \<^verbatim>\<open>All Competitions\<close>; every other metric is always valid. A
  call that returns gives back the valid metrics as the options, and a selected metric
  outside them is reset to the first valid one, \<^verbatim>\<open>Teams\<close>. The call returns whenever
  the selected competition has a row in the aggregate table.
\<close>

theorem metric_reset:
  "(''Participation'' \<notin> set (valid_metrics_for sc)) = (sc \<noteq> ''All Competitions'')
   \<and> (\<forall>k \<in> set (map fst metric_labels). k \<noteq> ''Participation'' \<longrightarrow> k \<in> set (valid_metrics_for sc))
   \<and> set (valid_metrics_for sc) \<subseteq> set (map fst metric_labels)
   \<and> valid_metrics_for sc \<noteq> [] \<and> hd (valid_metrics_for sc) = ''Teams''
   \<and> (update_map md sc metric s = (Inr (opts, m, fig), s') \<longrightarrow>
        map opt_value opts = valid_metrics_for sc
        \<and> (metric \<notin> set (valid_metrics_for sc) \<longrightarrow> m = hd (valid_metrics_for sc))
        \<and> (metric \<in> set (valid_metrics_for sc) \<longrightarrow> m = metric))
   \<and> (filter (\<lambda>r. a_Competition r = sc) (s ! md) \<noteq> [] \<longrightarrow>
        (\<exists>opts m fig s'. update_map md sc metric s = (Inr (opts, m, fig), s')))"
proof -
  have a: "(''Participation'' \<notin> set (valid_metrics_for sc)) = (sc \<noteq> ''All Competitions'')"
    by (simp add: valid_metrics_for_eq)
  have b: "\<forall>k \<in> set (map fst metric_labels). k \<noteq> ''Participation'' \<longrightarrow> k \<in> set (valid_metrics_for sc)"
    by (simp add: valid_metrics_for_eq metric_labels_def)
  have c: "set (valid_metrics_for sc) \<subseteq> set (map fst metric_labels)"
    by (simp add: valid_metrics_for_eq metric_labels_def)
  have d1: "valid_metrics_for sc \<noteq> []"
    by (simp add: valid_metrics_for_eq)
  have d2: "hd (valid_metrics_for sc) = ''Teams''"
    by (simp add: valid_metrics_for_eq)
  have e: "update_map md sc metric s = (Inr (opts, m, fig), s') \<longrightarrow>
        map opt_value opts = valid_metrics_for sc
        \<and> (metric \<notin> set (valid_metrics_for sc) \<longrightarrow> m = hd (valid_metrics_for sc))
        \<and> (metric \<in> set (valid_metrics_for sc) \<longrightarrow> m = metric)"
  proof
    assume u: "update_map md sc metric s = (Inr (opts, m, fig), s')"
    from update_map_returns [OF update_map_Inr_nonempty [OF u], of metric]
    obtain opts' fig' s'' where
      u': "update_map md sc metric s =
            (Inr (opts', (if metric \<in> set (valid_metrics_for sc) then metric else ''Teams''), fig'), s'')"
      and o: "map opt_value opts' = valid_metrics_for sc"
      by blast
    from u u' have oo: "opts = opts'"
      and mm: "m = (if metric \<in> set (valid_metrics_for sc) then metric else ''Teams'')"
      by simp_all
    show "map opt_value opts = valid_metrics_for sc
        \<and> (metric \<notin> set (valid_metrics_for sc) \<longrightarrow> m = hd (valid_metrics_for sc))
        \<and> (metric \<in> set (valid_metrics_for sc) \<longrightarrow> m = metric)"
      unfolding oo mm d2 using o by simp
  qed
  have f: "filter (\<lambda>r. a_Competition r = sc) (s ! md) \<noteq> [] \<longrightarrow>
        (\<exists>opts m fig s'. update_map md sc metric s = (Inr (opts, m, fig), s'))"
  proof
    assume ne: "filter (\<lambda>r. a_Competition r = sc) (s ! md) \<noteq> []"
    from update_map_returns [OF ne, of metric] obtain opts' fig' s'' where
      "update_map md sc metric s =
            (Inr (opts', (if metric \<in> set (valid_metrics_for sc) then metric else ''Teams''), fig'), s'')"
      by blast
    then show "\<exists>opts m fig s'. update_map md sc metric s = (Inr (opts, m, fig), s')"
      by (intro exI)
  qed
  show ?thesis
    by (rule conjI [OF a conjI [OF b conjI [OF c conjI [OF d1 conjI [OF d2 conjI [OF e f]]]]]])
qed

theorem metric_reset_witness:
  "\<exists>opts fig s'.
     update_map 0 ''IROS 2024'' ''Participation''
       [[\<lparr>a_Competition = ''IROS 2024'', a_COUNTRY = ''India'', Teams = Some 4,
          Participants = Some 9, Organizations = Some 3, Participation = None,
          hover_text = None\<rparr>]] = (Inr (opts, ''Teams'', fig), s')
     \<and> map opt_value opts = [''Teams'', ''Participants'', ''Organizations'']"
proof -
  let ?s = "[[\<lparr>a_Competition = ''IROS 2024'', a_COUNTRY = ''India'', Teams = Some 4,
          Participants = Some 9, Organizations = Some 3, Participation = None,
          hover_text = None\<rparr>]]"
  have ne: "filter (\<lambda>r. a_Competition r = ''IROS 2024'') (?s ! 0) \<noteq> []"
    by simp
  have v: "valid_metrics_for ''IROS 2024'' = [''Teams'', ''Participants'', ''Organizations'']"
    by (simp add: valid_metrics_for_eq)
  have "\<exists>opts m fig s'. update_map 0 ''IROS 2024'' ''Participation'' ?s = (Inr (opts, m, fig), s')"
    by (rule metric_reset [where sc = "''IROS 2024''" and md = 0 and metric = "''Participation''"
          and s = ?s, THEN conjunct2, THEN conjunct2, THEN conjunct2, THEN conjunct2, THEN conjunct2,
          THEN conjunct2, THEN mp, OF ne])
  then obtain opts m fig s'
    where u: "update_map 0 ''IROS 2024'' ''Participation'' ?s = (Inr (opts, m, fig), s')"
    by (elim exE)
  have "map opt_value opts = valid_metrics_for ''IROS 2024''
        \<and> (''Participation'' \<notin> set (valid_metrics_for ''IROS 2024'') \<longrightarrow> m = hd (valid_metrics_for ''IROS 2024''))
        \<and> (''Participation'' \<in> set (valid_metrics_for ''IROS 2024'') \<longrightarrow> m = ''Participation'')"
    by (rule metric_reset [where sc = "''IROS 2024''" and md = 0 and metric = "''Participation''"
          and s = ?s, THEN conjunct2, THEN conjunct2, THEN conjunct2, THEN conjunct2, THEN conjunct2,
          THEN conjunct1, THEN mp, OF u])
  then have k: "map opt_value opts = [''Teams'', ''Participants'', ''Organizations'']" and m: "m = ''Teams''"
    unfolding v by simp_all
  from u have "update_map 0 ''IROS 2024'' ''Participation'' ?s = (Inr (opts, ''Teams'', fig), s')"
    unfolding m .
  with k show ?thesis
    by (intro exI conjI)
qed



text \<open>
  Claim C9. A call of the callback, and any sequence of calls, leaves every frame that
  was in the store before unchanged, the aggregate table among them; the call only adds
  the filtered view and its working copy.
\<close>

theorem aggregate_table_unchanged:
  "take (length s) (snd (update_map md sc metric s)) = s
   \<and> take (length s) (interactions md evs s) = s
   \<and> (md < length s \<longrightarrow> snd (update_map md sc metric s) ! md = s ! md
                          \<and> interactions md evs s ! md = s ! md)
   \<and> (\<exists>view. snd (update_map md sc metric s)
                 = s @ [filter (\<lambda>r. a_Competition r = sc) (s ! md), view]
               \<and> map a_COUNTRY view = map a_COUNTRY (filter (\<lambda>r. a_Competition r = sc) (s ! md)))"
proof -
  have shape: "\<exists>h. snd (update_map md sc0 metric0 s0) = s0 @ [filter (\<lambda>r. a_Competition r = sc0) (s0 ! md), h]
       \<and> map a_COUNTRY h = map a_COUNTRY (filter (\<lambda>r. a_Competition r = sc0) (s0 ! md))"
    for s0 sc0 metric0
    using update_map_store [of md sc0 metric0 s0] by (elim exE conjE) (intro exI conjI)
  have one: "take (length s0) (snd (update_map md sc0 metric0 s0)) = s0" for s0 sc0 metric0
  proof -
    from shape [of sc0 metric0 s0] obtain h where
      "snd (update_map md sc0 metric0 s0) = s0 @ [filter (\<lambda>r. a_Competition r = sc0) (s0 ! md), h]"
      by (elim exE conjE)
    then show ?thesis by simp
  qed
  have len: "length s0 \<le> length (snd (update_map md sc0 metric0 s0))" for s0 sc0 metric0
  proof -
    from shape [of sc0 metric0 s0] obtain h where
      "snd (update_map md sc0 metric0 s0) = s0 @ [filter (\<lambda>r. a_Competition r = sc0) (s0 ! md), h]"
      by (elim exE conjE)
    then show ?thesis by simp
  qed
  have many: "take (length s0) (interactions md evs s0) = s0" for s0
  proof (induction evs arbitrary: s0)
    case Nil
    show ?case by (simp add: interactions_def)
  next
    case (Cons e evs)
    obtain sc0 metric0 where e: "e = (sc0, metric0)" by (cases e)
    let ?s1 = "snd (update_map md sc0 metric0 s0)"
    have st: "interactions md (e # evs) s0 = interactions md evs ?s1"
      by (simp add: interactions_def e)
    have "take (length s0) (interactions md evs ?s1)
            = take (length s0) (take (length ?s1) (interactions md evs ?s1))"
      using len [of s0 sc0 metric0] by (simp add: min_def)
    also have "\<dots> = take (length s0) ?s1"
      by (simp only: Cons.IH)
    also have "\<dots> = s0"
      by (rule one)
    finally show ?case
      by (simp only: st)
  qed
  have nth: "t ! md = s ! md" if "md < length s" and "take (length s) t = s" for t
  proof -
    from that(1) have "take (length s) t ! md = t ! md"
      by (rule nth_take)
    with that(2) show ?thesis by simp
  qed
  have c: "md < length s \<longrightarrow> snd (update_map md sc metric s) ! md = s ! md
                          \<and> interactions md evs s ! md = s ! md"
  proof (intro impI conjI)
    assume l: "md < length s"
    show "snd (update_map md sc metric s) ! md = s ! md"
      by (rule nth [OF l one])
    show "interactions md evs s ! md = s ! md"
      by (rule nth [OF l many])
  qed
  show ?thesis
    by (rule conjI [OF one conjI [OF many conjI [OF c shape]]])
qed

theorem aggregate_table_unchanged_witness:
  "interactions 0 [(''All Competitions'', ''Participation''), (''IROS 2024'', ''Participation'')]
     [[\<lparr>a_Competition = ''IROS 2024'', a_COUNTRY = ''India'', Teams = Some 4,
        Participants = Some 9, Organizations = Some 3, Participation = None,
        hover_text = None\<rparr>]] ! 0
   = [\<lparr>a_Competition = ''IROS 2024'', a_COUNTRY = ''India'', Teams = Some 4,
        Participants = Some 9, Organizations = Some 3, Participation = None,
        hover_text = None\<rparr>]"
proof -
  let ?s = "[[\<lparr>a_Competition = ''IROS 2024'', a_COUNTRY = ''India'', Teams = Some 4,
        Participants = Some 9, Organizations = Some 3, Participation = None,
        hover_text = None\<rparr>]]"
  let ?evs = "[(''All Competitions'', ''Participation''), (''IROS 2024'', ''Participation'')]"
  have l: "0 < length ?s"
    by simp
  have "interactions 0 ?evs ?s ! 0 = ?s ! 0"
    by (rule aggregate_table_unchanged [where s = ?s and md = 0 and evs = ?evs,
          THEN conjunct2, THEN conjunct2, THEN conjunct1, THEN mp, OF l, THEN conjunct2])
  then show ?thesis
    by (simp only: nth_Cons_0)
qed

text \<open>
  Claim C10. The metric a call returns is one of the values of the options the same call
  returns; the call returns whenever the selected competition has a row, and raises
  otherwise.
\<close>

theorem selected_metric_in_options:
  "(update_map md sc metric s = (Inr (opts, m, fig), s') \<longrightarrow> m \<in> opt_value ` set opts)
   \<and> (filter (\<lambda>r. a_Competition r = sc) (s ! md) \<noteq> [] \<longrightarrow>
        (\<exists>opts m fig s'. update_map md sc metric s = (Inr (opts, m, fig), s') \<and> m \<in> opt_value ` set opts))
   \<and> (filter (\<lambda>r. a_Competition r = sc) (s ! md) = [] \<longrightarrow>
        fst (update_map md sc metric s) = Inl ValueError)"
proof -
  let ?m = "if metric \<in> set (valid_metrics_for sc) then metric else ''Teams''"
  have r: "\<exists>opts fig s'. update_map md sc metric s = (Inr (opts, ?m, fig), s') \<and> ?m \<in> opt_value ` set opts"
    if ne: "filter (\<lambda>r. a_Competition r = sc) (s ! md) \<noteq> []"
  proof -
    from update_map_returns [OF ne, of metric] obtain opts' fig' s'' where
      u: "update_map md sc metric s = (Inr (opts', ?m, fig'), s'')"
      and o: "map opt_value opts' = valid_metrics_for sc"
      by blast
    have "?m \<in> set (map opt_value opts')"
      unfolding o by (rule reset_in_valid)
    then have "?m \<in> opt_value ` set opts'"
      by (simp only: set_map)
    with u show ?thesis
      by (intro exI conjI)
  qed
  have i: "update_map md sc metric s = (Inr (opts, m, fig), s') \<longrightarrow> m \<in> opt_value ` set opts"
  proof
    assume u: "update_map md sc metric s = (Inr (opts, m, fig), s')"
    from r [OF update_map_Inr_nonempty [OF u]] obtain opts' fig' s'' where
      u': "update_map md sc metric s = (Inr (opts', ?m, fig'), s'')"
      and k: "?m \<in> opt_value ` set opts'"
      by blast
    from u u' have "opts = opts'" and "m = ?m"
      by simp_all
    with k show "m \<in> opt_value ` set opts"
      by simp
  qed
  have j: "filter (\<lambda>r. a_Competition r = sc) (s ! md) \<noteq> [] \<longrightarrow>
        (\<exists>opts m fig s'. update_map md sc metric s = (Inr (opts, m, fig), s') \<and> m \<in> opt_value ` set opts)"
  proof
    assume ne: "filter (\<lambda>r. a_Competition r = sc) (s ! md) \<noteq> []"
    from r [OF ne] obtain opts' fig' s'' where
      "update_map md sc metric s = (Inr (opts', ?m, fig'), s'') \<and> ?m \<in> opt_value ` set opts'"
      by blast
    then show "\<exists>opts m fig s'. update_map md sc metric s = (Inr (opts, m, fig), s') \<and> m \<in> opt_value ` set opts"
      by (intro exI)
  qed
  have k: "filter (\<lambda>r. a_Competition r = sc) (s ! md) = [] \<longrightarrow>
        fst (update_map md sc metric s) = Inl ValueError"
    by (rule impI) (rule update_map_raises)
  show ?thesis
    by (rule conjI [OF i conjI [OF j k]])
qed

theorem selected_metric_in_options_witness:
  "\<exists>opts m fig s'.
     update_map 0 ''All Competitions'' ''Medals''
       [[\<lparr>a_Competition = ''All Competitions'', a_COUNTRY = ''India'', Teams = Some 4,
          Participants = Some 9, Organizations = Some 3, Participation = Some 2,
          hover_text = None\<rparr>]] = (Inr (opts, m, fig), s')
     \<and> m \<in> opt_value ` set opts"
proof -
  let ?s = "[[\<lparr>a_Competition = ''All Competitions'', a_COUNTRY = ''India'', Teams = Some 4,
          Participants = Some 9, Organizations = Some 3, Participation = Some 2,
          hover_text = None\<rparr>]]"
  have ne: "filter (\<lambda>r. a_Competition r = ''All Competitions'') (?s ! 0) \<noteq> []"
    by simp
  show ?thesis
    by (rule selected_metric_in_options [where sc = "''All Competitions''" and md = 0
          and metric = "''Medals''" and s = ?s, THEN conjunct2, THEN conjunct1, THEN mp, OF ne])
qed

section \<open>Properties of the country normaliser\<close>

lemma replace_alias_key:
  "t \<in> fst ` set country_alias_map \<Longrightarrow> map_of country_alias_map t = Some (replace_alias t) \<and> replace_alias t \<noteq> t"
  unfolding replace_alias_def country_alias_map_def
  by (auto split: if_splits)

lemma replace_alias_other:
  "t \<notin> fst ` set country_alias_map \<Longrightarrow> replace_alias t = t"
  unfolding replace_alias_def
  by (simp add: map_of_eq_None_iff [THEN iffD2])

lemma replace_alias_examples: "replace_alias ''U.S.'' = ''United States'' \<and> replace_alias ''USA'' = ''United States''
   \<and> replace_alias ''United States of America (USA)'' = ''United States'' \<and> replace_alias ''usa'' = ''usa''"
  by (simp add: replace_alias_def country_alias_map_def)


lemma split_comma_nonempty: "split_comma s \<noteq> []"
  by (induction s) (auto split: list.splits)

lemma split_comma_length: "length (split_comma s) = Suc (count_list s (CHR '',''))"
  by (induction s) (auto split: list.splits simp: split_comma_nonempty)

lemma split_comma_single: "CHR '','' \<notin> set s \<Longrightarrow> split_comma s = [s]"
  by (induction s) auto

lemma df_split_per_record:
  "df_split all =
     concat (map (\<lambda>r. case r_COUNTRY r of
                         None \<Rightarrow> [r]
                       | Some c \<Rightarrow> map (\<lambda>t. r\<lparr>r_COUNTRY := Some (replace_alias (strip t))\<rparr>)
                                      (split_comma (sep_replace c))) all)"
proof (induction all)
  case Nil
  show ?case
    by (simp add: df_split_def replace_col_def str_strip_col_def explode_def str_split_col_def
        str_replace_col_def)
next
  case (Cons r rs)
  have step: "df_split (r # rs) = df_split [r] @ df_split rs"
    by (simp add: df_split_def replace_col_def str_strip_col_def explode_def str_split_col_def
        str_replace_col_def)
  have one: "df_split [r] =
     (case r_COUNTRY r of
        None \<Rightarrow> [r]
      | Some c \<Rightarrow> map (\<lambda>t. r\<lparr>r_COUNTRY := Some (replace_alias (strip t))\<rparr>)
                     (split_comma (sep_replace c)))"
  proof (cases "r_COUNTRY r")
    case None
    then show ?thesis
      by (simp add: df_split_def replace_col_def str_strip_col_def explode_def str_split_col_def
          str_replace_col_def with_country_def)
  next
    case (Some c)
    obtain t ts where ts: "split_comma (sep_replace c) = t # ts"
      using split_comma_nonempty [of "sep_replace c"] by (cases "split_comma (sep_replace c)") auto
    show ?thesis
      by (simp add: df_split_def replace_col_def str_strip_col_def explode_def str_split_col_def
          str_replace_col_def with_country_def Some ts comp_def)
  qed
  show ?case
    unfolding step one Cons.IH by simp
qed

lemma match_here_amp: "match_here (CHR ''&'' # s) \<noteq> None"
  by (simp add: match_here_def is_space_def)

lemma match_here_slash: "match_here (CHR ''/'' # s) \<noteq> None"
  by (simp add: match_here_def is_space_def)

lemma sep_replace_no_amp: "CHR ''&'' \<notin> set (sep_replace s)"
proof (induction s rule: sep_replace.induct)
  case 1
  show ?case by simp
next
  case (2 c cs)
  show ?case
  proof (cases "match_here (c # cs)")
    case None
    with match_here_amp [of cs] have "c \<noteq> CHR ''&''" by auto
    with None 2 show ?thesis by simp
  next
    case (Some rest)
    with 2 show ?thesis by simp
  qed
qed

lemma sep_replace_no_slash: "CHR ''/'' \<notin> set (sep_replace s)"
proof (induction s rule: sep_replace.induct)
  case 1
  show ?case by simp
next
  case (2 c cs)
  show ?case
  proof (cases "match_here (c # cs)")
    case None
    with match_here_slash [of cs] have "c \<noteq> CHR ''/''" by auto
    with None 2 show ?thesis by simp
  next
    case (Some rest)
    with 2 show ?thesis by simp
  qed
qed

lemma has_and_word_dropWhile:
  "dropWhile is_space s \<noteq> s \<Longrightarrow> take 3 (dropWhile is_space s) = ''and'' \<Longrightarrow>
   drop 3 (dropWhile is_space s) \<noteq> [] \<Longrightarrow> is_space (hd (drop 3 (dropWhile is_space s))) \<Longrightarrow>
   has_and_word s"
proof (induction s)
  case Nil
  then show ?case by simp
next
  case (Cons a s)
  from Cons.prems(1) have sp: "is_space a"
    by (cases "is_space a") auto
  then have d: "dropWhile is_space (a # s) = dropWhile is_space s"
    by simp
  show ?case
  proof (cases "dropWhile is_space s = s")
    case True
    with Cons.prems d sp show ?thesis by simp
  next
    case False
    with Cons.IH Cons.prems d have "has_and_word s" by simp
    then show ?thesis by simp
  qed
qed

lemma match_here_None:
  assumes "CHR ''&'' \<notin> set s" and "CHR ''/'' \<notin> set s" and "\<not> has_and_word s"
  shows "match_here s = None"
proof -
  define r where "r = dropWhile is_space s"
  have sub: "set r \<subseteq> set s"
    unfolding r_def by (rule set_dropWhileD [THEN subsetI])
  show ?thesis
  proof (cases r)
    case Nil
    then show ?thesis
      by (simp add: match_here_def r_def [symmetric])
  next
    case (Cons c t)
    with sub assms have c: "c \<noteq> CHR ''&''" "c \<noteq> CHR ''/''"
      by auto
    have n: "\<not> (r \<noteq> s \<and> take 3 r = ''and'' \<and> drop 3 r \<noteq> [] \<and> is_space (hd (drop 3 r)))"
      using has_and_word_dropWhile [of s] assms(3) unfolding r_def by blast
    have "match_here s =
       (case r of
        [] \<Rightarrow> None
      | c # t \<Rightarrow>
          if c = CHR ''&'' then Some (dropWhile is_space t)
          else if c = CHR ''/'' then Some (dropWhile is_space t)
          else if r \<noteq> s \<and> take 3 r = ''and'' \<and> drop 3 r \<noteq> [] \<and> is_space (hd (drop 3 r))
               then Some (dropWhile is_space (drop 3 r))
          else None)"
      unfolding match_here_def Let_def r_def ..
    also have "\<dots> = None"
      using c n unfolding Cons by (simp only: list.case if_False simp_thms)
    finally show ?thesis .
  qed
qed

lemma sep_replace_id:
  "CHR ''&'' \<notin> set s \<Longrightarrow> CHR ''/'' \<notin> set s \<Longrightarrow> \<not> has_and_word s \<Longrightarrow> sep_replace s = s"
proof (induction s)
  case Nil
  show ?case by simp
next
  case (Cons c cs)
  from Cons.prems have m: "match_here (c # cs) = None"
    by (intro match_here_None)
  from Cons.prems have "sep_replace cs = cs"
    by (intro Cons.IH) auto
  with m show ?case by simp
qed

lemma sep_replace_head:
  assumes "sep_replace s = x # Y" and "x \<noteq> CHR '',''"
  shows "\<exists>s'. s = x # s' \<and> Y = sep_replace s' \<and> match_here s = None"
proof (cases s)
  case Nil
  with assms show ?thesis by simp
next
  case (Cons c cs)
  show ?thesis
  proof (cases "match_here (c # cs)")
    case None
    with assms Cons show ?thesis by simp
  next
    case (Some rest)
    with assms Cons show ?thesis by simp
  qed
qed

lemma sep_replace_no_and_word: "\<not> has_and_word (sep_replace s)"
proof (induction s rule: sep_replace.induct)
  case 1
  show ?case by simp
next
  case (2 c cs)
  show ?case
  proof (cases "match_here (c # cs)")
    case (Some rest)
    have "\<not> is_space (CHR '','')"
      by (simp add: is_space_def)
    with Some 2 show ?thesis by simp
  next
    case None
    have ih: "\<not> has_and_word (sep_replace cs)"
      using 2 None by simp
    have "\<not> (is_space c \<and> take 3 (sep_replace cs) = ''and'' \<and> drop 3 (sep_replace cs) \<noteq> []
              \<and> is_space (hd (drop 3 (sep_replace cs))))"
    proof
      assume a: "is_space c \<and> take 3 (sep_replace cs) = ''and'' \<and> drop 3 (sep_replace cs) \<noteq> []
              \<and> is_space (hd (drop 3 (sep_replace cs)))"
      then obtain w Z where y: "sep_replace cs = CHR ''a'' # CHR ''n'' # CHR ''d'' # w # Z" and w: "is_space w"
        by (cases "sep_replace cs" rule: list.exhaust;
            cases "tl (sep_replace cs)" rule: list.exhaust;
            cases "tl (tl (sep_replace cs))" rule: list.exhaust;
            cases "tl (tl (tl (sep_replace cs)))" rule: list.exhaust) auto
      have nc: "\<not> is_space (CHR '','')"
        by (simp add: is_space_def)
      from sep_replace_head [OF y] obtain s1 where
        s1: "cs = CHR ''a'' # s1" "CHR ''n'' # CHR ''d'' # w # Z = sep_replace s1"
        by auto
      from sep_replace_head [OF s1(2) [symmetric]] obtain s2 where
        s2: "s1 = CHR ''n'' # s2" "CHR ''d'' # w # Z = sep_replace s2"
        by auto
      from sep_replace_head [OF s2(2) [symmetric]] obtain s3 where
        s3: "s2 = CHR ''d'' # s3" "w # Z = sep_replace s3"
        by auto
      from w nc have "w \<noteq> CHR '',''" by auto
      from sep_replace_head [OF s3(2) [symmetric] this] obtain s4 where
        s4: "s3 = w # s4"
        by auto
      have na: "\<not> is_space (CHR ''a'')"
        by (simp add: is_space_def)
      from a have "is_space c" by simp
      with na w have "match_here (c # CHR ''a'' # CHR ''n'' # CHR ''d'' # w # s4) \<noteq> None"
        by (simp add: match_here_def)
      with None s1 s2 s3 s4 show False by simp
    qed
    with ih None show ?thesis by simp
  qed
qed

lemma df_split_append: "df_split (xs @ ys) = df_split xs @ df_split ys"
  unfolding df_split_per_record by simp

lemma df_split_single_Some:
  assumes "r_COUNTRY r = Some c" and "\<not> has_delimiter c"
  shows "df_split [r] = [r\<lparr>r_COUNTRY := Some (replace_alias (strip c))\<rparr>]"
proof -
  from assms(2) have "sep_replace c = c"
    by (intro sep_replace_id) (simp_all add: has_delimiter_def)
  moreover from assms(2) have "split_comma c = [c]"
    by (intro split_comma_single) (simp add: has_delimiter_def)
  ultimately show ?thesis
    unfolding df_split_per_record using assms(1) by simp
qed

lemma df_split_single_None:
  assumes "r_COUNTRY r = None"
  shows "df_split [r] = [r]"
  unfolding df_split_per_record using assms by simp

text \<open>
  Claim C4. The five column operations of the normaliser amount to this, record by
  record: the separators of the country are replaced by a comma (no ampersand, slash or
  whitespace-delimited \<^verbatim>\<open>and\<close> is left), the result is split at every comma, each
  token gives one record whose other fields are those of the input, and the token is
  first trimmed and then looked up in the alias table.
\<close>

theorem normaliser_order:
  "df_split all =
     concat (map (\<lambda>r. case r_COUNTRY r of
                         None \<Rightarrow> [r]
                       | Some c \<Rightarrow> map (\<lambda>t. r\<lparr>r_COUNTRY := Some (replace_alias (strip t))\<rparr>)
                                      (split_comma (sep_replace c))) all)
   \<and> CHR ''&'' \<notin> set (sep_replace c) \<and> CHR ''/'' \<notin> set (sep_replace c)
   \<and> \<not> has_and_word (sep_replace c)
   \<and> length (split_comma s) = Suc (count_list s (CHR '',''))
   \<and> df_split [\<lparr>r_SR_NO = Some ''7'', r_TEAM_NAME = Some ''T'', r_TEAM_MEMBER = Some ''m'',
                 r_ORGANIZATION = Some ''O'', r_COUNTRY = Some '' U.S./Canada and  UK '',
                 r_Competition = ''IROS 2024''\<rparr>]
      = [\<lparr>r_SR_NO = Some ''7'', r_TEAM_NAME = Some ''T'', r_TEAM_MEMBER = Some ''m'',
          r_ORGANIZATION = Some ''O'', r_COUNTRY = Some ''United States'',
          r_Competition = ''IROS 2024''\<rparr>,
         \<lparr>r_SR_NO = Some ''7'', r_TEAM_NAME = Some ''T'', r_TEAM_MEMBER = Some ''m'',
          r_ORGANIZATION = Some ''O'', r_COUNTRY = Some ''Canada'',
          r_Competition = ''IROS 2024''\<rparr>,
         \<lparr>r_SR_NO = Some ''7'', r_TEAM_NAME = Some ''T'', r_TEAM_MEMBER = Some ''m'',
          r_ORGANIZATION = Some ''O'', r_COUNTRY = Some ''United Kingdom'',
          r_Competition = ''IROS 2024''\<rparr>]"
proof -
  have e: "df_split [\<lparr>r_SR_NO = Some ''7'', r_TEAM_NAME = Some ''T'', r_TEAM_MEMBER = Some ''m'',
                 r_ORGANIZATION = Some ''O'', r_COUNTRY = Some '' U.S./Canada and  UK '',
                 r_Competition = ''IROS 2024''\<rparr>]
      = [\<lparr>r_SR_NO = Some ''7'', r_TEAM_NAME = Some ''T'', r_TEAM_MEMBER = Some ''m'',
          r_ORGANIZATION = Some ''O'', r_COUNTRY = Some ''United States'',
          r_Competition = ''IROS 2024''\<rparr>,
         \<lparr>r_SR_NO = Some ''7'', r_TEAM_NAME = Some ''T'', r_TEAM_MEMBER = Some ''m'',
          r_ORGANIZATION = Some ''O'', r_COUNTRY = Some ''Canada'',
          r_Competition = ''IROS 2024''\<rparr>,
         \<lparr>r_SR_NO = Some ''7'', r_TEAM_NAME = Some ''T'', r_TEAM_MEMBER = Some ''m'',
          r_ORGANIZATION = Some ''O'', r_COUNTRY = Some ''United Kingdom'',
          r_Competition = ''IROS 2024''\<rparr>]"
    by (simp add: df_split_def replace_col_def str_strip_col_def explode_def str_split_col_def
        str_replace_col_def with_country_def match_here_def is_space_def strip_def
        replace_alias_def country_alias_map_def)
  show ?thesis
    by (rule conjI [OF df_split_per_record conjI [OF sep_replace_no_amp conjI [OF sep_replace_no_slash
          conjI [OF sep_replace_no_and_word conjI [OF split_comma_length e]]]]])
qed

text \<open>
  Claim C5, as amended. A record whose country has no delimiter gives exactly one output
  record, in place: the input record with its country trimmed and then replaced by its
  alias. It is the input record itself when the country has no surrounding whitespace and
  is no alias key, and when the country is empty.
\<close>

theorem single_country_record:
  "(r_COUNTRY r = Some c \<and> \<not> has_delimiter c \<longrightarrow>
      df_split (xs @ r # ys)
        = df_split xs @ r\<lparr>r_COUNTRY := Some (replace_alias (strip c))\<rparr> # df_split ys)
   \<and> (r_COUNTRY r = Some c \<and> \<not> has_delimiter c \<and> strip c = c
        \<and> c \<notin> fst ` set country_alias_map \<longrightarrow>
      df_split (xs @ r # ys) = df_split xs @ r # df_split ys)
   \<and> (r_COUNTRY r = None \<longrightarrow> df_split (xs @ r # ys) = df_split xs @ r # df_split ys)"
proof -
  have sp: "df_split (xs @ r # ys) = df_split xs @ df_split [r] @ df_split ys"
    using df_split_append [of xs "[r] @ ys"] df_split_append [of "[r]" ys] by simp
  have a: "r_COUNTRY r = Some c \<and> \<not> has_delimiter c \<longrightarrow>
      df_split (xs @ r # ys)
        = df_split xs @ r\<lparr>r_COUNTRY := Some (replace_alias (strip c))\<rparr> # df_split ys"
  proof
    assume h: "r_COUNTRY r = Some c \<and> \<not> has_delimiter c"
    then have "df_split [r] = [r\<lparr>r_COUNTRY := Some (replace_alias (strip c))\<rparr>]"
      by (intro df_split_single_Some) simp_all
    then show "df_split (xs @ r # ys)
        = df_split xs @ r\<lparr>r_COUNTRY := Some (replace_alias (strip c))\<rparr> # df_split ys"
      unfolding sp by simp
  qed
  have b: "r_COUNTRY r = Some c \<and> \<not> has_delimiter c \<and> strip c = c
        \<and> c \<notin> fst ` set country_alias_map \<longrightarrow>
      df_split (xs @ r # ys) = df_split xs @ r # df_split ys"
  proof
    assume h: "r_COUNTRY r = Some c \<and> \<not> has_delimiter c \<and> strip c = c
        \<and> c \<notin> fst ` set country_alias_map"
    then have "df_split [r] = [r\<lparr>r_COUNTRY := Some (replace_alias (strip c))\<rparr>]"
      by (intro df_split_single_Some) simp_all
    moreover from h have "replace_alias (strip c) = c"
      using replace_alias_other [of c] by simp
    moreover from h have "r\<lparr>r_COUNTRY := Some c\<rparr> = r"
      by simp
    ultimately show "df_split (xs @ r # ys) = df_split xs @ r # df_split ys"
      unfolding sp by simp
  qed
  have n: "r_COUNTRY r = None \<longrightarrow> df_split (xs @ r # ys) = df_split xs @ r # df_split ys"
  proof
    assume "r_COUNTRY r = None"
    then have "df_split [r] = [r]"
      by (rule df_split_single_None)
    then show "df_split (xs @ r # ys) = df_split xs @ r # df_split ys"
      unfolding sp by simp
  qed
  show ?thesis
    by (rule conjI [OF a conjI [OF b n]])
qed

theorem single_country_record_witness:
  "df_split ([] @ \<lparr>r_SR_NO = Some ''1'', r_TEAM_NAME = Some ''T'', r_TEAM_MEMBER = Some ''m'',
                 r_ORGANIZATION = Some ''O'', r_COUNTRY = Some ''Netherlands '',
                 r_Competition = ''IROS 2024''\<rparr> # [])
   = [\<lparr>r_SR_NO = Some ''1'', r_TEAM_NAME = Some ''T'', r_TEAM_MEMBER = Some ''m'',
                 r_ORGANIZATION = Some ''O'', r_COUNTRY = Some ''Netherlands'',
                 r_Competition = ''IROS 2024''\<rparr>]"
proof -
  let ?r = "\<lparr>r_SR_NO = Some ''1'', r_TEAM_NAME = Some ''T'', r_TEAM_MEMBER = Some ''m'',
                 r_ORGANIZATION = Some ''O'', r_COUNTRY = Some ''Netherlands '',
                 r_Competition = ''IROS 2024''\<rparr>"
  have h: "r_COUNTRY ?r = Some ''Netherlands '' \<and> \<not> has_delimiter ''Netherlands ''"
    by (simp add: has_delimiter_def is_space_def)
  have s: "replace_alias (strip ''Netherlands '') = ''Netherlands''"
    by (simp add: strip_def is_space_def replace_alias_def country_alias_map_def)
  have e: "df_split [] = ([] :: cell reg_row list)"
    by (simp add: df_split_per_record)
  from single_country_record [where r = ?r and c = "''Netherlands ''" and xs = "[]" and ys = "[]",
      THEN conjunct1, THEN mp, OF h]
  show ?thesis
    unfolding s e by simp
qed

text \<open>
  The claim as stated asks for an output identical to the input. The country
  \<^verbatim>\<open>USA\<close> has no delimiter and is replaced by its alias.
\<close>

theorem single_country_record_counterexample:
  "\<not> has_delimiter ''USA''
   \<and> df_split [\<lparr>r_SR_NO = Some ''1'', r_TEAM_NAME = Some ''T'', r_TEAM_MEMBER = Some ''m'',
                 r_ORGANIZATION = Some ''O'', r_COUNTRY = Some ''USA'',
                 r_Competition = ''IROS 2024''\<rparr>]
     = [\<lparr>r_SR_NO = Some ''1'', r_TEAM_NAME = Some ''T'', r_TEAM_MEMBER = Some ''m'',
                 r_ORGANIZATION = Some ''O'', r_COUNTRY = Some ''United States'',
                 r_Competition = ''IROS 2024''\<rparr>]
   \<and> df_split [\<lparr>r_SR_NO = Some ''1'', r_TEAM_NAME = Some ''T'', r_TEAM_MEMBER = Some ''m'',
                 r_ORGANIZATION = Some ''O'', r_COUNTRY = Some ''USA'',
                 r_Competition = ''IROS 2024''\<rparr>]
     \<noteq> [\<lparr>r_SR_NO = Some ''1'', r_TEAM_NAME = Some ''T'', r_TEAM_MEMBER = Some ''m'',
                 r_ORGANIZATION = Some ''O'', r_COUNTRY = Some ''USA'',
                 r_Competition = ''IROS 2024''\<rparr>]"
  by (simp add: has_delimiter_def df_split_def replace_col_def str_strip_col_def explode_def str_split_col_def
        str_replace_col_def with_country_def match_here_def is_space_def strip_def
        replace_alias_def country_alias_map_def)

text \<open>
  Claim C6. A token is changed by the alias substitution exactly when it is, as a whole
  and with its case, a key of the alias table, and then to the value of that key. The
  three spellings of the claim all give \<^verbatim>\<open>United States\<close>; \<^verbatim>\<open>usa\<close> stays and
  makes a group of its own in the aggregate.
\<close>

theorem alias_exact_match:
  "(replace_alias t \<noteq> t) = (t \<in> fst ` set country_alias_map)
   \<and> (t \<in> fst ` set country_alias_map \<longrightarrow> map_of country_alias_map t = Some (replace_alias t))
   \<and> replace_alias ''U.S.'' = ''United States''
   \<and> replace_alias ''USA'' = ''United States''
   \<and> replace_alias ''United States of America (USA)'' = ''United States''
   \<and> replace_alias ''usa'' = ''usa''
   \<and> map (\<lambda>r. (a_COUNTRY r, Participants r))
        (all_combined (df_split
          (map (\<lambda>c. \<lparr>r_SR_NO = None, r_TEAM_NAME = Some ''T'', r_TEAM_MEMBER = Some ''m'',
                      r_ORGANIZATION = None, r_COUNTRY = Some c, r_Competition = ''IROS 2024''\<rparr>)
               [''U.S.'', ''usa'', ''USA'', ''United States of America (USA)''])))
      = [(''United States'', Some 3), (''usa'', Some 1)]"
proof -
  have a: "(replace_alias t \<noteq> t) = (t \<in> fst ` set country_alias_map)"
    using replace_alias_key [of t] replace_alias_other [of t] by blast
  have b: "t \<in> fst ` set country_alias_map \<longrightarrow> map_of country_alias_map t = Some (replace_alias t)"
    using replace_alias_key [of t] by blast
  have c: "map (\<lambda>r. (a_COUNTRY r, Participants r))
        (all_combined (df_split
          (map (\<lambda>c. \<lparr>r_SR_NO = None, r_TEAM_NAME = Some ''T'', r_TEAM_MEMBER = Some ''m'',
                      r_ORGANIZATION = None, r_COUNTRY = Some c, r_Competition = ''IROS 2024''\<rparr>)
               [''U.S.'', ''usa'', ''USA'', ''United States of America (USA)''])))
      = [(''United States'', Some 3), (''usa'', Some 1)]"
    by (simp add: all_combined_def df_split_def replace_col_def str_strip_col_def explode_def
        str_split_col_def str_replace_col_def with_country_def group_keys1_def dropna_col_def
        match_here_def is_space_def strip_def replace_alias_def country_alias_map_def count_col_def)
  show ?thesis
    using replace_alias_examples by (intro conjI a b c) simp_all
qed

theorem alias_exact_match_witness:
  "''UK'' \<in> fst ` set country_alias_map \<and> replace_alias ''UK'' = ''United Kingdom''"
proof -
  have k: "''UK'' \<in> fst ` set country_alias_map"
    by (simp add: country_alias_map_def)
  have m: "map_of country_alias_map ''UK'' = Some ''United Kingdom''"
    by (simp add: country_alias_map_def)
  from alias_exact_match [where t = "''UK''", THEN conjunct2, THEN conjunct1, THEN mp, OF k]
  have "replace_alias ''UK'' = ''United Kingdom''"
    unfolding m by simp
  with k show ?thesis by simp
qed

section \<open>Properties of the record loader\<close>

lemma ffill_from_length: "length (ffill_from p xs) = length xs"
  by (induction p xs rule: ffill_from.induct) simp_all

lemma ffill_from_nth_none:
  "i < length xs \<Longrightarrow> (\<forall>k \<le> i. xs ! k = None) \<Longrightarrow> ffill_from p xs ! i = p"
proof (induction p xs arbitrary: i rule: ffill_from.induct)
  case (1 prev)
  then show ?case by simp
next
  case (2 prev xs)
  show ?case
  proof (cases i)
    case 0
    then show ?thesis by simp
  next
    case (Suc i')
    from 2(3) Suc have "\<forall>k \<le> i'. xs ! k = None"
      by (metis Suc_le_mono nth_Cons_Suc)
    with 2(1) [of i'] 2(2) Suc show ?thesis by simp
  qed
next
  case (3 prev v xs)
  from 3(3) have "(Some v # xs) ! 0 = None" by blast
  then show ?case by simp
qed

lemma ffill_from_nth_gap:
  "j \<le> i \<Longrightarrow> i < length xs \<Longrightarrow> xs ! j = Some v \<Longrightarrow>
   (\<forall>k. j < k \<and> k \<le> i \<longrightarrow> xs ! k = None) \<Longrightarrow> ffill_from p xs ! i = Some v"
proof (induction xs arbitrary: p i j)
  case Nil
  then show ?case by simp
next
  case (Cons x xs)
  show ?case
  proof (cases j)
    case 0
    with Cons.prems have x: "x = Some v" by simp
    show ?thesis
    proof (cases i)
      case 0
      with x show ?thesis by simp
    next
      case (Suc i')
      from Cons.prems(4) \<open>j = 0\<close> Suc have "\<forall>k \<le> i'. xs ! k = None"
        by (metis Suc_le_mono nth_Cons_Suc zero_less_Suc)
      with Cons.prems(2) Suc have "ffill_from (Some v) xs ! i' = Some v"
        by (intro ffill_from_nth_none) simp_all
      with x Suc show ?thesis by simp
    qed
  next
    case (Suc j')
    with Cons.prems(1) obtain i' where i: "i = Suc i'" and le: "j' \<le> i'"
      by (cases i) auto
    from Cons.prems(4) Suc i have gap: "\<forall>k. j' < k \<and> k \<le> i' \<longrightarrow> xs ! k = None"
      by (metis Suc_le_mono Suc_less_eq nth_Cons_Suc)
    from Cons.prems Suc i have "i' < length xs" "xs ! j' = Some v"
      by simp_all
    with le gap have "ffill_from q xs ! i' = Some v" for q
      by (intro Cons.IH [of j' i']) 
    with i show ?thesis
      by (cases x) simp_all
  qed
qed

lemma ffill_columns_length: "length (ffill_columns df) = length df"
  by (simp add: ffill_columns_def)

lemma ffill_columns_nth:
  "i < length df \<Longrightarrow>
   ffill_columns df ! i = (df ! i)\<lparr>SR_NO := ffill (map SR_NO df) ! i,
                        TEAM_NAME := ffill (map TEAM_NAME df) ! i,
                        ORGANIZATION := ffill (map ORGANIZATION df) ! i,
                        COUNTRY := ffill (map COUNTRY df) ! i\<rparr>"
  by (simp add: ffill_columns_def)

lemma ffill_columns_col:
  assumes "col \<in> {SR_NO, TEAM_NAME, ORGANIZATION, COUNTRY}" and "i < length df"
  shows "col (ffill_columns df ! i) = ffill (map col df) ! i"
  using assms by (auto simp: ffill_columns_nth)

lemma ffill_columns_member:
  "i < length df \<Longrightarrow> TEAM_MEMBER (ffill_columns df ! i) = TEAM_MEMBER (df ! i)"
  by (simp add: ffill_columns_nth)

lemma load_sheet_rows:
  "load_sheet name df =
     map (\<lambda>i. tag_competition name (ffill_columns df ! i))
         (filter (\<lambda>i. TEAM_MEMBER (df ! i) \<noteq> None) [0..<length df])"
proof -
  have "ffill_columns df = map (\<lambda>i. ffill_columns df ! i) [0..<length (ffill_columns df)]"
    by (simp add: map_nth)
  then have f: "ffill_columns df = map (\<lambda>i. ffill_columns df ! i) [0..<length df]"
    by (simp only: ffill_columns_length)
  have "filter (\<lambda>r. TEAM_MEMBER r \<noteq> None) (map (\<lambda>i. ffill_columns df ! i) [0..<length df])
          = map (\<lambda>i. ffill_columns df ! i)
              (filter (\<lambda>i. TEAM_MEMBER (ffill_columns df ! i) \<noteq> None) [0..<length df])"
    by (simp add: filter_map comp_def)
  also have "filter (\<lambda>i. TEAM_MEMBER (ffill_columns df ! i) \<noteq> None) [0..<length df]
          = filter (\<lambda>i. TEAM_MEMBER (df ! i) \<noteq> None) [0..<length df]"
    by (rule filter_cong) (simp_all add: ffill_columns_member)
  finally have "dropna_member (ffill_columns df)
          = map (\<lambda>i. ffill_columns df ! i) (filter (\<lambda>i. TEAM_MEMBER (df ! i) \<noteq> None) [0..<length df])"
    unfolding dropna_member_def using f by simp
  then show ?thesis
    by (simp add: load_sheet_def comp_def)
qed

text \<open>
  Claim C7, as amended. Each of the four columns is filled on its own: a cell takes the
  value of the nearest non-empty cell at or above it in the same column, whatever rows lie
  in between, and stays empty when there is none. So the rows of a team carry exactly the
  values of the team's first row when that row gives all four fields and the rows after
  it leave them empty. The member column is not touched, and the rows with a member are
  kept, in order, with the competition's name.
\<close>

theorem forward_fill_columns:
  "length (ffill_columns df) = length df
   \<and> (\<forall>col \<in> {SR_NO, TEAM_NAME, ORGANIZATION, COUNTRY}. \<forall>i < length df.
         (\<forall>j \<le> i. col (df ! j) \<noteq> None \<and> (\<forall>k. j < k \<and> k \<le> i \<longrightarrow> col (df ! k) = None)
                    \<longrightarrow> col (ffill_columns df ! i) = col (df ! j))
         \<and> ((\<forall>k \<le> i. col (df ! k) = None) \<longrightarrow> col (ffill_columns df ! i) = None))
   \<and> (\<forall>i < length df. \<forall>j \<le> i.
         (\<forall>col \<in> {SR_NO, TEAM_NAME, ORGANIZATION, COUNTRY}. col (df ! j) \<noteq> None)
         \<and> (\<forall>k. j < k \<and> k \<le> i \<longrightarrow>
                (\<forall>col \<in> {SR_NO, TEAM_NAME, ORGANIZATION, COUNTRY}. col (df ! k) = None))
         \<longrightarrow> (\<forall>col \<in> {SR_NO, TEAM_NAME, ORGANIZATION, COUNTRY}.
                col (ffill_columns df ! i) = col (df ! j)))
   \<and> (\<forall>i < length df. TEAM_MEMBER (ffill_columns df ! i) = TEAM_MEMBER (df ! i))
   \<and> load_sheet name df =
        map (\<lambda>i. tag_competition name (ffill_columns df ! i))
            (filter (\<lambda>i. TEAM_MEMBER (df ! i) \<noteq> None) [0..<length df])"
proof -
  have cols: "\<forall>col \<in> {SR_NO, TEAM_NAME, ORGANIZATION, COUNTRY}. \<forall>i < length df.
         (\<forall>j \<le> i. col (df ! j) \<noteq> None \<and> (\<forall>k. j < k \<and> k \<le> i \<longrightarrow> col (df ! k) = None)
                    \<longrightarrow> col (ffill_columns df ! i) = col (df ! j))
         \<and> ((\<forall>k \<le> i. col (df ! k) = None) \<longrightarrow> col (ffill_columns df ! i) = None)"
  proof (intro ballI allI impI conjI)
    fix col :: "sheet_row \<Rightarrow> cell" and i j
    assume c: "col \<in> {SR_NO, TEAM_NAME, ORGANIZATION, COUNTRY}" and i: "i < length df"
      and j: "j \<le> i"
      and h: "col (df ! j) \<noteq> None \<and> (\<forall>k. j < k \<and> k \<le> i \<longrightarrow> col (df ! k) = None)"
    from h obtain v where v: "col (df ! j) = Some v" by auto
    have "ffill_from None (map col df) ! i = Some v"
    proof (rule ffill_from_nth_gap [OF j])
      show "i < length (map col df)" using i by simp
      show "map col df ! j = Some v" using i j v by simp
      show "\<forall>k. j < k \<and> k \<le> i \<longrightarrow> map col df ! k = None" using h i by simp
    qed
    then show "col (ffill_columns df ! i) = col (df ! j)"
      unfolding ffill_columns_col [OF c i] ffill_def v .
  next
    fix col :: "sheet_row \<Rightarrow> cell" and i
    assume c: "col \<in> {SR_NO, TEAM_NAME, ORGANIZATION, COUNTRY}" and i: "i < length df"
      and h: "\<forall>k \<le> i. col (df ! k) = None"
    have "ffill_from None (map col df) ! i = None"
    proof (rule ffill_from_nth_none)
      show "i < length (map col df)" using i by simp
      show "\<forall>k \<le> i. map col df ! k = None" using h i by simp
    qed
    then show "col (ffill_columns df ! i) = None"
      unfolding ffill_columns_col [OF c i] ffill_def .
  qed
  have block: "\<forall>i < length df. \<forall>j \<le> i.
         (\<forall>col \<in> {SR_NO, TEAM_NAME, ORGANIZATION, COUNTRY}. col (df ! j) \<noteq> None)
         \<and> (\<forall>k. j < k \<and> k \<le> i \<longrightarrow>
                (\<forall>col \<in> {SR_NO, TEAM_NAME, ORGANIZATION, COUNTRY}. col (df ! k) = None))
         \<longrightarrow> (\<forall>col \<in> {SR_NO, TEAM_NAME, ORGANIZATION, COUNTRY}.
                col (ffill_columns df ! i) = col (df ! j))"
  proof (intro allI impI ballI)
    fix i j and col :: "sheet_row \<Rightarrow> cell"
    assume i: "i < length df" and j: "j \<le> i"
      and c: "col \<in> {SR_NO, TEAM_NAME, ORGANIZATION, COUNTRY}"
      and h: "(\<forall>col \<in> {SR_NO, TEAM_NAME, ORGANIZATION, COUNTRY}. col (df ! j) \<noteq> None)
         \<and> (\<forall>k. j < k \<and> k \<le> i \<longrightarrow>
                (\<forall>col \<in> {SR_NO, TEAM_NAME, ORGANIZATION, COUNTRY}. col (df ! k) = None))"
    have "col (df ! j) \<noteq> None \<and> (\<forall>k. j < k \<and> k \<le> i \<longrightarrow> col (df ! k) = None)"
    proof (intro conjI allI impI)
      show "col (df ! j) \<noteq> None"
        by (rule h [THEN conjunct1, THEN bspec, OF c])
    next
      fix k
      assume k: "j < k \<and> k \<le> i"
      show "col (df ! k) = None"
        by (rule h [THEN conjunct2, THEN spec, THEN mp, OF k, THEN bspec, OF c])
    qed
    with cols [THEN bspec, OF c, THEN spec, THEN mp, OF i, THEN conjunct1, THEN spec, THEN mp, OF j]
    show "col (ffill_columns df ! i) = col (df ! j)"
      by (rule mp)
  qed
  have mem: "\<forall>i < length df. TEAM_MEMBER (ffill_columns df ! i) = TEAM_MEMBER (df ! i)"
    by (intro allI impI) (rule ffill_columns_member)
  show ?thesis
    by (rule conjI [OF ffill_columns_length conjI [OF cols conjI [OF block conjI [OF mem load_sheet_rows]]]])
qed

theorem forward_fill_columns_witness:
  "ORGANIZATION (ffill_columns
     [\<lparr>SR_NO = Some ''1'', TEAM_NAME = Some ''A'', TEAM_MEMBER = Some ''m1'',
       ORGANIZATION = Some ''X'', COUNTRY = Some ''USA''\<rparr>,
      \<lparr>SR_NO = None, TEAM_NAME = None, TEAM_MEMBER = Some ''m2'',
       ORGANIZATION = None, COUNTRY = None\<rparr>,
      \<lparr>SR_NO = None, TEAM_NAME = None, TEAM_MEMBER = Some ''m3'',
       ORGANIZATION = None, COUNTRY = None\<rparr>] ! 2) = Some ''X''"
proof -
  let ?df = "[\<lparr>SR_NO = Some ''1'', TEAM_NAME = Some ''A'', TEAM_MEMBER = Some ''m1'',
       ORGANIZATION = Some ''X'', COUNTRY = Some ''USA''\<rparr>,
      \<lparr>SR_NO = None, TEAM_NAME = None, TEAM_MEMBER = Some ''m2'',
       ORGANIZATION = None, COUNTRY = None\<rparr>,
      \<lparr>SR_NO = None, TEAM_NAME = None, TEAM_MEMBER = Some ''m3'',
       ORGANIZATION = None, COUNTRY = None\<rparr>]"
  have c: "ORGANIZATION \<in> {SR_NO, TEAM_NAME, ORGANIZATION, COUNTRY}"
    by simp
  have l: "2 < length ?df"
    by simp
  have z: "(0::nat) \<le> 2"
    by simp
  have g: "ORGANIZATION (?df ! 0) \<noteq> None \<and> (\<forall>k. 0 < k \<and> k \<le> 2 \<longrightarrow> ORGANIZATION (?df ! k) = None)"
  proof (intro conjI allI impI)
    show "ORGANIZATION (?df ! 0) \<noteq> None" by simp
  next
    fix k :: nat
    assume "0 < k \<and> k \<le> 2"
    then have "k = 1 \<or> k = 2" by arith
    then show "ORGANIZATION (?df ! k) = None" by auto
  qed
  note t = forward_fill_columns [where df = ?df, THEN conjunct2, THEN conjunct1, THEN bspec, OF c,
      THEN spec, THEN mp, OF l, THEN conjunct1, THEN spec, THEN mp, OF z, THEN mp, OF g]
  then show ?thesis
    by simp
qed

text \<open>
  The claim as stated asks that a team's rows only ever get that team's values. Here
  team \<^verbatim>\<open>B\<close> leaves its organization empty and is given the organization of team
  \<^verbatim>\<open>A\<close>, across a separator row.
\<close>

theorem forward_fill_columns_counterexample:
  "load_sheet ''IROS 2024''
     [\<lparr>SR_NO = Some ''1'', TEAM_NAME = Some ''A'', TEAM_MEMBER = Some ''m1'',
       ORGANIZATION = Some ''X'', COUNTRY = Some ''USA''\<rparr>,
      \<lparr>SR_NO = None, TEAM_NAME = None, TEAM_MEMBER = None,
       ORGANIZATION = None, COUNTRY = None\<rparr>,
      \<lparr>SR_NO = Some ''2'', TEAM_NAME = Some ''B'', TEAM_MEMBER = Some ''m3'',
       ORGANIZATION = None, COUNTRY = Some ''Japan''\<rparr>]
   = [\<lparr>r_SR_NO = Some ''1'', r_TEAM_NAME = Some ''A'', r_TEAM_MEMBER = Some ''m1'',
       r_ORGANIZATION = Some ''X'', r_COUNTRY = Some ''USA'', r_Competition = ''IROS 2024''\<rparr>,
      \<lparr>r_SR_NO = Some ''2'', r_TEAM_NAME = Some ''B'', r_TEAM_MEMBER = Some ''m3'',
       r_ORGANIZATION = Some ''X'', r_COUNTRY = Some ''Japan'', r_Competition = ''IROS 2024''\<rparr>]"
  by (simp add: load_sheet_def dropna_member_def ffill_columns_def ffill_def tag_competition_def
      upt_rec [of 0] upt_rec [of 1] upt_rec [of 2] upt_rec [of 3])

section \<open>Properties of the aggregator\<close>

lemma set_dropna_col: "set (dropna_col xs) = {v. Some v \<in> set xs}"
  by (induction xs) (auto simp: dropna_col_def split: option.splits)

lemma nunique_card: "nunique xs = int (card {v. Some v \<in> set xs})"
  by (simp add: nunique_def length_remdups_card_conv set_dropna_col)

lemma nunique_group:
  "nunique (map f (filter P df)) = int (card {v. \<exists>x \<in> set df. P x \<and> f x = Some v})"
proof -
  have "{v. Some v \<in> set (map f (filter P df))} = {v. \<exists>x \<in> set df. P x \<and> f x = Some v}"
    by (auto simp: image_iff)
  then show ?thesis
    by (simp only: nunique_card)
qed

lemma count_col_group:
  "count_col (map f (filter P df)) = int (length (filter (\<lambda>x. P x \<and> f x \<noteq> None) df))"
proof -
  have "length (dropna_col (map f xs)) = length (filter (\<lambda>x. f x \<noteq> None) xs)" for xs
    by (induction xs) (auto simp: dropna_col_def split: option.splits)
  then show ?thesis
    by (simp add: count_col_def filter_filter conj_commute)
qed

lemma set_group_keys1: "set (group_keys1 df) = {c. \<exists>x \<in> set df. r_COUNTRY x = Some c}"
proof -
  have "(Some c \<in> r_COUNTRY ` set df) = (\<exists>x \<in> set df. r_COUNTRY x = Some c)" for c
    by (metis (no_types) image_iff)
  then show ?thesis
    by (simp add: group_keys1_def set_dropna_col)
qed

lemma distinct_group_keys1: "distinct (group_keys1 df)"
  by (simp add: group_keys1_def)

lemma set_group_keys2:
  "set (group_keys2 df) = {(k, c). \<exists>x \<in> set df. r_Competition x = k \<and> r_COUNTRY x = Some c}"
  by (auto simp: group_keys2_def split: option.splits)

lemma distinct_group_keys2: "distinct (group_keys2 df)"
  by (simp add: group_keys2_def)

lemma all_combined_countries: "map a_COUNTRY (all_combined df) = group_keys1 df"
  by (simp add: all_combined_def comp_def Let_def)

lemma all_combined_row:
  assumes "r \<in> set (all_combined df)"
  shows "a_Competition r = ''All Competitions''
    \<and> (\<exists>x \<in> set df. r_COUNTRY x = Some (a_COUNTRY r))
    \<and> Teams r = Some (int (card {t. \<exists>x \<in> set df. r_COUNTRY x = Some (a_COUNTRY r) \<and> r_TEAM_NAME x = Some t}))
    \<and> Participants r = Some (int (length (filter (\<lambda>x. r_COUNTRY x = Some (a_COUNTRY r) \<and> r_TEAM_MEMBER x \<noteq> None) df)))
    \<and> Organizations r = Some (int (card {g. \<exists>x \<in> set df. r_COUNTRY x = Some (a_COUNTRY r) \<and> r_ORGANIZATION x = Some g}))
    \<and> Participation r = Some (int (card {k. \<exists>x \<in> set df. r_COUNTRY x = Some (a_COUNTRY r) \<and> r_Competition x = k}))"
proof -
  from assms obtain c where c: "c \<in> set (group_keys1 df)"
    and r: "r = \<lparr>a_Competition = ''All Competitions'', a_COUNTRY = c,
             Teams = Some (nunique (map r_TEAM_NAME (filter (\<lambda>r. r_COUNTRY r = Some c) df))),
             Participants = Some (count_col (map r_TEAM_MEMBER (filter (\<lambda>r. r_COUNTRY r = Some c) df))),
             Organizations = Some (nunique (map r_ORGANIZATION (filter (\<lambda>r. r_COUNTRY r = Some c) df))),
             Participation = Some (nunique (map (\<lambda>r. Some (r_Competition r)) (filter (\<lambda>r. r_COUNTRY r = Some c) df))),
             hover_text = None\<rparr>"
    by (auto simp: all_combined_def Let_def)
  from c have ex: "\<exists>x \<in> set df. r_COUNTRY x = Some c"
    by (simp add: set_group_keys1)
  have k: "{v. \<exists>x \<in> set df. r_COUNTRY x = Some c \<and> Some (r_Competition x) = Some v}
            = {k. \<exists>x \<in> set df. r_COUNTRY x = Some c \<and> r_Competition x = k}"
    by simp
  show ?thesis
    unfolding r using ex
    by (simp add: nunique_group count_col_group k)
qed

lemma per_competition_row:
  assumes "r \<in> set (per_competition df)"
  shows "(\<exists>x \<in> set df. r_Competition x = a_Competition r \<and> r_COUNTRY x = Some (a_COUNTRY r))
    \<and> Teams r = Some (int (card {t. \<exists>x \<in> set df. (r_Competition x = a_Competition r \<and> r_COUNTRY x = Some (a_COUNTRY r)) \<and> r_TEAM_NAME x = Some t}))
    \<and> Participants r = Some (int (length (filter (\<lambda>x. (r_Competition x = a_Competition r \<and> r_COUNTRY x = Some (a_COUNTRY r)) \<and> r_TEAM_MEMBER x \<noteq> None) df)))
    \<and> Organizations r = Some (int (card {g. \<exists>x \<in> set df. (r_Competition x = a_Competition r \<and> r_COUNTRY x = Some (a_COUNTRY r)) \<and> r_ORGANIZATION x = Some g}))
    \<and> Participation r = None"
proof -
  from assms obtain k c where c: "(k, c) \<in> set (group_keys2 df)"
    and r: "r = \<lparr>a_Competition = k, a_COUNTRY = c,
             Teams = Some (nunique (map r_TEAM_NAME (filter (\<lambda>r. r_Competition r = k \<and> r_COUNTRY r = Some c) df))),
             Participants = Some (count_col (map r_TEAM_MEMBER (filter (\<lambda>r. r_Competition r = k \<and> r_COUNTRY r = Some c) df))),
             Organizations = Some (nunique (map r_ORGANIZATION (filter (\<lambda>r. r_Competition r = k \<and> r_COUNTRY r = Some c) df))),
             Participation = None,
             hover_text = None\<rparr>"
    by (auto simp: per_competition_def Let_def)
  from c have ex: "\<exists>x \<in> set df. r_Competition x = k \<and> r_COUNTRY x = Some c"
    by (simp add: set_group_keys2)
  show ?thesis
    unfolding r using ex
    by (simp add: nunique_group count_col_group)
qed

lemma load_sheet_member:
  "r \<in> set (load_sheet name df) \<Longrightarrow> r_TEAM_MEMBER r \<noteq> None \<and> r_Competition r = name"
  by (auto simp: load_sheet_def dropna_member_def tag_competition_def)

lemma concat_loaded_member:
  "concat_loaded wb cs = Inr d \<Longrightarrow> r \<in> set d \<Longrightarrow> r_TEAM_MEMBER r \<noteq> None \<and> r_Competition r \<in> set cs"
proof (induction cs arbitrary: d)
  case Nil
  then show ?case by simp
next
  case (Cons c cs)
  from Cons.prems(1) obtain df rest where w: "wb c = Some df"
    and rest: "concat_loaded wb cs = Inr rest" and d: "d = load_sheet c df @ rest"
    by (auto simp: load_competition_def split: option.splits sum.splits)
  from Cons.prems(2) d consider "r \<in> set (load_sheet c df)" | "r \<in> set rest"
    by auto
  then show ?case
  proof cases
    case 1
    from load_sheet_member [OF 1] show ?thesis by simp
  next
    case 2
    from Cons.IH [OF rest 2] show ?thesis by simp
  qed
qed

lemma ne_empty_of_mem: "a \<in> A \<Longrightarrow> A \<noteq> {}"
  by (rule notI) simp

lemma df_split_member:
  assumes "y \<in> set (df_split d)"
  shows "\<exists>x \<in> set d. r_TEAM_MEMBER y = r_TEAM_MEMBER x \<and> r_Competition y = r_Competition x"
proof -
  from assms obtain x where x: "x \<in> set d"
    and y: "y \<in> set (case r_COUNTRY x of
                         None \<Rightarrow> [x]
                       | Some c \<Rightarrow> map (\<lambda>t. x\<lparr>r_COUNTRY := Some (replace_alias (strip t))\<rparr>)
                                      (split_comma (sep_replace c)))"
    unfolding df_split_per_record by auto
  from y have "r_TEAM_MEMBER y = r_TEAM_MEMBER x \<and> r_Competition y = r_Competition x"
    by (cases "r_COUNTRY x") auto
  with x show ?thesis by blast
qed

lemma normalized_member:
  assumes "all_data wb = Inr d" and "y \<in> set (df_split d)"
  shows "r_TEAM_MEMBER y \<noteq> None \<and> r_Competition y \<in> set competition_order"
proof -
  from df_split_member [OF assms(2)] obtain x where x: "x \<in> set d"
    and e: "r_TEAM_MEMBER y = r_TEAM_MEMBER x" "r_Competition y = r_Competition x"
    by blast
  from concat_loaded_member [OF assms(1) [unfolded all_data_def] x] e show ?thesis
    by simp
qed

text \<open>
  Claim C1. Every row of the \<^verbatim>\<open>All Competitions\<close> table is computed from the records
  of its country in all competitions together: the number of distinct team names, the
  number of records with a member (all of them, for records that come from the loader),
  the number of distinct organizations, and the number of distinct competitions among
  these records. There is one such row for every country of the record set. The counts of
  distinct values are not the sums of the per-competition rows: a team entered in two
  competitions counts twice there and once here.
\<close>

theorem all_competitions_rows:
  "(r \<in> set (all_combined df) \<longrightarrow>
      a_Competition r = ''All Competitions''
    \<and> (\<exists>x \<in> set df. r_COUNTRY x = Some (a_COUNTRY r))
    \<and> Teams r = Some (int (card {t. \<exists>x \<in> set df. r_COUNTRY x = Some (a_COUNTRY r) \<and> r_TEAM_NAME x = Some t}))
    \<and> Participants r = Some (int (length (filter (\<lambda>x. r_COUNTRY x = Some (a_COUNTRY r) \<and> r_TEAM_MEMBER x \<noteq> None) df)))
    \<and> Organizations r = Some (int (card {g. \<exists>x \<in> set df. r_COUNTRY x = Some (a_COUNTRY r) \<and> r_ORGANIZATION x = Some g}))
    \<and> Participation r = Some (int (card {k. \<exists>x \<in> set df. r_COUNTRY x = Some (a_COUNTRY r) \<and> r_Competition x = k})))
   \<and> distinct (map a_COUNTRY (all_combined df))
   \<and> set (map a_COUNTRY (all_combined df)) = {c. \<exists>x \<in> set df. r_COUNTRY x = Some c}
   \<and> (all_data wb = Inr d \<and> r \<in> set (all_combined (df_split d)) \<longrightarrow>
        Participants r = Some (int (length (filter (\<lambda>x. r_COUNTRY x = Some (a_COUNTRY r)) (df_split d)))))
   \<and> (let ex = [\<lparr>r_SR_NO = Some ''1'', r_TEAM_NAME = Some ''T'', r_TEAM_MEMBER = Some ''m'',
                  r_ORGANIZATION = Some ''O'', r_COUNTRY = Some ''India'', r_Competition = ''IROS 2024''\<rparr>,
                 \<lparr>r_SR_NO = Some ''1'', r_TEAM_NAME = Some ''T'', r_TEAM_MEMBER = Some ''m'',
                  r_ORGANIZATION = Some ''O'', r_COUNTRY = Some ''India'', r_Competition = ''CDC 2024''\<rparr>]
       in map Teams (per_competition ex) = [Some 1, Some 1]
        \<and> map Teams (all_combined ex) = [Some 1]
        \<and> map Participation (all_combined ex) = [Some 2])"
proof -
  have a: "r \<in> set (all_combined df) \<longrightarrow>
      a_Competition r = ''All Competitions''
    \<and> (\<exists>x \<in> set df. r_COUNTRY x = Some (a_COUNTRY r))
    \<and> Teams r = Some (int (card {t. \<exists>x \<in> set df. r_COUNTRY x = Some (a_COUNTRY r) \<and> r_TEAM_NAME x = Some t}))
    \<and> Participants r = Some (int (length (filter (\<lambda>x. r_COUNTRY x = Some (a_COUNTRY r) \<and> r_TEAM_MEMBER x \<noteq> None) df)))
    \<and> Organizations r = Some (int (card {g. \<exists>x \<in> set df. r_COUNTRY x = Some (a_COUNTRY r) \<and> r_ORGANIZATION x = Some g}))
    \<and> Participation r = Some (int (card {k. \<exists>x \<in> set df. r_COUNTRY x = Some (a_COUNTRY r) \<and> r_Competition x = k}))"
    by (rule impI) (rule all_combined_row)
  have b: "distinct (map a_COUNTRY (all_combined df))"
    unfolding all_combined_countries by (rule distinct_group_keys1)
  have c: "set (map a_COUNTRY (all_combined df)) = {c. \<exists>x \<in> set df. r_COUNTRY x = Some c}"
    unfolding all_combined_countries by (rule set_group_keys1)
  have p: "all_data wb = Inr d \<and> r \<in> set (all_combined (df_split d)) \<longrightarrow>
        Participants r = Some (int (length (filter (\<lambda>x. r_COUNTRY x = Some (a_COUNTRY r)) (df_split d))))"
  proof
    assume h: "all_data wb = Inr d \<and> r \<in> set (all_combined (df_split d))"
    have "filter (\<lambda>x. r_COUNTRY x = Some (a_COUNTRY r) \<and> r_TEAM_MEMBER x \<noteq> None) (df_split d)
            = filter (\<lambda>x. r_COUNTRY x = Some (a_COUNTRY r)) (df_split d)"
    proof (rule filter_cong [OF refl])
      fix x
      assume "x \<in> set (df_split d)"
      with h normalized_member [of wb d x] have "r_TEAM_MEMBER x \<noteq> None"
        by simp
      then show "(r_COUNTRY x = Some (a_COUNTRY r) \<and> r_TEAM_MEMBER x \<noteq> None) = (r_COUNTRY x = Some (a_COUNTRY r))"
        by simp
    qed
    with all_combined_row [of r "df_split d"] h
    show "Participants r = Some (int (length (filter (\<lambda>x. r_COUNTRY x = Some (a_COUNTRY r)) (df_split d))))"
      by simp
  qed
  have e: "let ex = [\<lparr>r_SR_NO = Some ''1'', r_TEAM_NAME = Some ''T'', r_TEAM_MEMBER = Some ''m'',
                  r_ORGANIZATION = Some ''O'', r_COUNTRY = Some ''India'', r_Competition = ''IROS 2024''\<rparr>,
                 \<lparr>r_SR_NO = Some ''1'', r_TEAM_NAME = Some ''T'', r_TEAM_MEMBER = Some ''m'',
                  r_ORGANIZATION = Some ''O'', r_COUNTRY = Some ''India'', r_Competition = ''CDC 2024''\<rparr>]
       in map Teams (per_competition ex) = [Some 1, Some 1]
        \<and> map Teams (all_combined ex) = [Some 1]
        \<and> map Participation (all_combined ex) = [Some 2]"
    by (simp add: Let_def per_competition_def all_combined_def group_keys1_def group_keys2_def
        dropna_col_def nunique_def)
  show ?thesis
    by (rule conjI [OF a conjI [OF b conjI [OF c conjI [OF p e]]]])
qed

theorem all_competitions_rows_witness:
  "int (card {k. \<exists>x \<in> set [\<lparr>r_SR_NO = Some ''1'', r_TEAM_NAME = Some ''T'', r_TEAM_MEMBER = Some ''m'',
                  r_ORGANIZATION = Some ''O'', r_COUNTRY = Some ''India'', r_Competition = ''IROS 2024''\<rparr>,
                 \<lparr>r_SR_NO = Some ''1'', r_TEAM_NAME = Some ''T'', r_TEAM_MEMBER = Some ''m'',
                  r_ORGANIZATION = Some ''O'', r_COUNTRY = Some ''India'', r_Competition = ''CDC 2024''\<rparr>].
              r_COUNTRY x = Some ''India'' \<and> r_Competition x = k}) = 2"
proof -
  let ?df = "[\<lparr>r_SR_NO = Some ''1'', r_TEAM_NAME = Some ''T'', r_TEAM_MEMBER = Some ''m'',
                  r_ORGANIZATION = Some ''O'', r_COUNTRY = Some ''India'', r_Competition = ''IROS 2024''\<rparr>,
                 \<lparr>r_SR_NO = Some ''1'', r_TEAM_NAME = Some ''T'', r_TEAM_MEMBER = Some ''m'',
                  r_ORGANIZATION = Some ''O'', r_COUNTRY = Some ''India'', r_Competition = ''CDC 2024''\<rparr>]"
  let ?r = "\<lparr>a_Competition = ''All Competitions'', a_COUNTRY = ''India'', Teams = Some 1,
            Participants = Some 2, Organizations = Some 1, Participation = Some 2,
            hover_text = None\<rparr>"
  have mem: "?r \<in> set (all_combined ?df)"
    by (simp add: all_combined_def group_keys1_def dropna_col_def nunique_def count_col_def)
  from all_competitions_rows [where r = ?r and df = ?df, THEN conjunct1, THEN mp, OF mem,
      THEN conjunct2, THEN conjunct2, THEN conjunct2, THEN conjunct2, THEN conjunct2]
  have "Some (2::int) = Some (int (card {k. \<exists>x \<in> set ?df. r_COUNTRY x = Some ''India'' \<and> r_Competition x = k}))"
    by (simp only: agg_row.select_convs)
  then show ?thesis
    by (simp only: option.inject)
qed

text \<open>
  Claim C8. Every count of both aggregate tables is an integer that is not negative; the
  per-competition rows have no competition count, and the one of an \<^verbatim>\<open>All
  Competitions\<close> row is at least 1. In both tables the counts of teams and of
  organizations are the cardinalities of the sets of values in the group, and so is the
  count of competitions of an \<^verbatim>\<open>All Competitions\<close> row; only the count of
  participants counts records. So two records of one team and one organization in one
  competition make one team, one organization, one competition and two participants.
\<close>

theorem counts_nonnegative_distinct:
  "(r \<in> set (per_competition df) \<longrightarrow>
      (\<exists>x \<in> set df. r_Competition x = a_Competition r \<and> r_COUNTRY x = Some (a_COUNTRY r))
    \<and> Teams r = Some (int (card {t. \<exists>x \<in> set df. (r_Competition x = a_Competition r \<and> r_COUNTRY x = Some (a_COUNTRY r)) \<and> r_TEAM_NAME x = Some t}))
    \<and> Participants r = Some (int (length (filter (\<lambda>x. (r_Competition x = a_Competition r \<and> r_COUNTRY x = Some (a_COUNTRY r)) \<and> r_TEAM_MEMBER x \<noteq> None) df)))
    \<and> Organizations r = Some (int (card {g. \<exists>x \<in> set df. (r_Competition x = a_Competition r \<and> r_COUNTRY x = Some (a_COUNTRY r)) \<and> r_ORGANIZATION x = Some g}))
    \<and> Participation r = None)
   \<and> (r \<in> set (map_data df) \<longrightarrow>
        (\<exists>t p g. Teams r = Some t \<and> 0 \<le> t \<and> Participants r = Some p \<and> 0 \<le> p
                 \<and> Organizations r = Some g \<and> 0 \<le> g)
        \<and> (Participation r = None \<or> (\<exists>k. Participation r = Some k \<and> 0 \<le> k)))
   \<and> (r \<in> set (all_combined df) \<longrightarrow> (\<exists>k. Participation r = Some k \<and> 1 \<le> k))
   \<and> (r \<in> set (all_combined df) \<longrightarrow>
        a_Competition r = ''All Competitions''
      \<and> (\<exists>x \<in> set df. r_COUNTRY x = Some (a_COUNTRY r))
      \<and> Teams r = Some (int (card {t. \<exists>x \<in> set df. r_COUNTRY x = Some (a_COUNTRY r) \<and> r_TEAM_NAME x = Some t}))
      \<and> Participants r = Some (int (length (filter (\<lambda>x. r_COUNTRY x = Some (a_COUNTRY r) \<and> r_TEAM_MEMBER x \<noteq> None) df)))
      \<and> Organizations r = Some (int (card {g. \<exists>x \<in> set df. r_COUNTRY x = Some (a_COUNTRY r) \<and> r_ORGANIZATION x = Some g}))
      \<and> Participation r = Some (int (card {k. \<exists>x \<in> set df. r_COUNTRY x = Some (a_COUNTRY r) \<and> r_Competition x = k})))
   \<and> (let ex = [\<lparr>r_SR_NO = Some ''1'', r_TEAM_NAME = Some ''T'', r_TEAM_MEMBER = Some ''m1'',
                  r_ORGANIZATION = Some ''O'', r_COUNTRY = Some ''India'', r_Competition = ''IROS 2024''\<rparr>,
                 \<lparr>r_SR_NO = Some ''1'', r_TEAM_NAME = Some ''T'', r_TEAM_MEMBER = Some ''m2'',
                  r_ORGANIZATION = Some ''O'', r_COUNTRY = Some ''India'', r_Competition = ''IROS 2024''\<rparr>]
       in map Teams (per_competition ex) = [Some 1]
        \<and> map Participants (per_competition ex) = [Some 2]
        \<and> map Teams (all_combined ex) = [Some 1]
        \<and> map Organizations (per_competition ex) = [Some 1]
        \<and> map Participants (all_combined ex) = [Some 2]
        \<and> map Organizations (all_combined ex) = [Some 1]
        \<and> map Participation (all_combined ex) = [Some 1])"
proof -
  have a: "r \<in> set (per_competition df) \<longrightarrow>
      (\<exists>x \<in> set df. r_Competition x = a_Competition r \<and> r_COUNTRY x = Some (a_COUNTRY r))
    \<and> Teams r = Some (int (card {t. \<exists>x \<in> set df. (r_Competition x = a_Competition r \<and> r_COUNTRY x = Some (a_COUNTRY r)) \<and> r_TEAM_NAME x = Some t}))
    \<and> Participants r = Some (int (length (filter (\<lambda>x. (r_Competition x = a_Competition r \<and> r_COUNTRY x = Some (a_COUNTRY r)) \<and> r_TEAM_MEMBER x \<noteq> None) df)))
    \<and> Organizations r = Some (int (card {g. \<exists>x \<in> set df. (r_Competition x = a_Competition r \<and> r_COUNTRY x = Some (a_COUNTRY r)) \<and> r_ORGANIZATION x = Some g}))
    \<and> Participation r = None"
    by (rule impI) (rule per_competition_row)
  have b: "r \<in> set (map_data df) \<longrightarrow>
        (\<exists>t p g. Teams r = Some t \<and> 0 \<le> t \<and> Participants r = Some p \<and> 0 \<le> p
                 \<and> Organizations r = Some g \<and> 0 \<le> g)
        \<and> (Participation r = None \<or> (\<exists>k. Participation r = Some k \<and> 0 \<le> k))"
  proof
    assume "r \<in> set (map_data df)"
    then consider "r \<in> set (per_competition df)" | "r \<in> set (all_combined df)"
      by (auto simp: map_data_def)
    then show "(\<exists>t p g. Teams r = Some t \<and> 0 \<le> t \<and> Participants r = Some p \<and> 0 \<le> p
                 \<and> Organizations r = Some g \<and> 0 \<le> g)
        \<and> (Participation r = None \<or> (\<exists>k. Participation r = Some k \<and> 0 \<le> k))"
    proof cases
      case 1
      from per_competition_row [OF 1] show ?thesis by simp
    next
      case 2
      from all_combined_row [OF 2] show ?thesis by simp
    qed
  qed
  have c: "r \<in> set (all_combined df) \<longrightarrow> (\<exists>k. Participation r = Some k \<and> 1 \<le> k)"
  proof
    assume m: "r \<in> set (all_combined df)"
    let ?K = "{k. \<exists>x \<in> set df. r_COUNTRY x = Some (a_COUNTRY r) \<and> r_Competition x = k}"
    from all_combined_row [OF m] obtain x where x: "x \<in> set df" "r_COUNTRY x = Some (a_COUNTRY r)"
      and p: "Participation r = Some (int (card ?K))"
      by blast
    have "?K \<subseteq> r_Competition ` set df"
      by auto
    then have fin: "finite ?K"
      by (rule finite_subset) simp
    from x have "r_Competition x \<in> ?K"
      by blast
    then have ne: "?K \<noteq> {}"
      by (rule ne_empty_of_mem)
    have "0 < card ?K"
      unfolding card_gt_0_iff using ne fin by (rule conjI)
    with p show "\<exists>k. Participation r = Some k \<and> 1 \<le> k"
      by simp
  qed
  have d: "r \<in> set (all_combined df) \<longrightarrow>
      a_Competition r = ''All Competitions''
    \<and> (\<exists>x \<in> set df. r_COUNTRY x = Some (a_COUNTRY r))
    \<and> Teams r = Some (int (card {t. \<exists>x \<in> set df. r_COUNTRY x = Some (a_COUNTRY r) \<and> r_TEAM_NAME x = Some t}))
    \<and> Participants r = Some (int (length (filter (\<lambda>x. r_COUNTRY x = Some (a_COUNTRY r) \<and> r_TEAM_MEMBER x \<noteq> None) df)))
    \<and> Organizations r = Some (int (card {g. \<exists>x \<in> set df. r_COUNTRY x = Some (a_COUNTRY r) \<and> r_ORGANIZATION x = Some g}))
    \<and> Participation r = Some (int (card {k. \<exists>x \<in> set df. r_COUNTRY x = Some (a_COUNTRY r) \<and> r_Competition x = k}))"
    by (rule impI) (rule all_combined_row)
  have e: "let ex = [\<lparr>r_SR_NO = Some ''1'', r_TEAM_NAME = Some ''T'', r_TEAM_MEMBER = Some ''m1'',
                  r_ORGANIZATION = Some ''O'', r_COUNTRY = Some ''India'', r_Competition = ''IROS 2024''\<rparr>,
                 \<lparr>r_SR_NO = Some ''1'', r_TEAM_NAME = Some ''T'', r_TEAM_MEMBER = Some ''m2'',
                  r_ORGANIZATION = Some ''O'', r_COUNTRY = Some ''India'', r_Competition = ''IROS 2024''\<rparr>]
       in map Teams (per_competition ex) = [Some 1]
        \<and> map Participants (per_competition ex) = [Some 2]
        \<and> map Teams (all_combined ex) = [Some 1]
        \<and> map Organizations (per_competition ex) = [Some 1]
        \<and> map Participants (all_combined ex) = [Some 2]
        \<and> map Organizations (all_combined ex) = [Some 1]
        \<and> map Participation (all_combined ex) = [Some 1]"
    by (simp add: Let_def per_competition_def all_combined_def group_keys1_def group_keys2_def
        dropna_col_def nunique_def count_col_def)
  show ?thesis
    by (rule conjI [OF a conjI [OF b conjI [OF c conjI [OF d e]]]])
qed

theorem counts_nonnegative_distinct_witness:
  "int (card {t. \<exists>x \<in> set [\<lparr>r_SR_NO = Some ''1'', r_TEAM_NAME = Some ''T'', r_TEAM_MEMBER = Some ''m1'',
                  r_ORGANIZATION = Some ''O'', r_COUNTRY = Some ''India'', r_Competition = ''IROS 2024''\<rparr>,
                 \<lparr>r_SR_NO = Some ''1'', r_TEAM_NAME = Some ''T'', r_TEAM_MEMBER = Some ''m2'',
                  r_ORGANIZATION = Some ''O'', r_COUNTRY = Some ''India'', r_Competition = ''IROS 2024''\<rparr>].
              (r_Competition x = ''IROS 2024'' \<and> r_COUNTRY x = Some ''India'') \<and> r_TEAM_NAME x = Some t}) = 1"
proof -
  let ?df = "[\<lparr>r_SR_NO = Some ''1'', r_TEAM_NAME = Some ''T'', r_TEAM_MEMBER = Some ''m1'',
                  r_ORGANIZATION = Some ''O'', r_COUNTRY = Some ''India'', r_Competition = ''IROS 2024''\<rparr>,
                 \<lparr>r_SR_NO = Some ''1'', r_TEAM_NAME = Some ''T'', r_TEAM_MEMBER = Some ''m2'',
                  r_ORGANIZATION = Some ''O'', r_COUNTRY = Some ''India'', r_Competition = ''IROS 2024''\<rparr>]"
  let ?r = "\<lparr>a_Competition = ''IROS 2024'', a_COUNTRY = ''India'', Teams = Some 1,
            Participants = Some 2, Organizations = Some 1, Participation = None,
            hover_text = None\<rparr>"
  have mem: "?r \<in> set (per_competition ?df)"
    by (simp add: per_competition_def group_keys2_def dropna_col_def nunique_def count_col_def)
  from counts_nonnegative_distinct [where r = ?r and df = ?df, THEN conjunct1, THEN mp, OF mem,
      THEN conjunct2, THEN conjunct1]
  have "Some (1::int) = Some (int (card {t. \<exists>x \<in> set ?df.
          (r_Competition x = ''IROS 2024'' \<and> r_COUNTRY x = Some ''India'') \<and> r_TEAM_NAME x = Some t}))"
    by (simp only: agg_row.select_convs)
  then show ?thesis
    by (simp only: option.inject)
qed

end
